theory Spec2Isabelle
  imports Complex_Main "HOL-Library.AList"
begin

section \<open>The cursor actions (js/actions/api-cursor.js)\<close>

subsection \<open>JavaScript values\<close>

text \<open>
  The values a parsed JSON body can hold, plus \<open>undefined\<close>. An object is an
  association list (a property is read at its first entry); a number is the value the
  engine holds after parsing.
\<close>

datatype JsValue =
    JUndefined
  | JNull
  | JBool bool
  | JNum rat
  | JStr string
  | JArr "JsValue list"
  | JObj "(string \<times> JsValue) list"

datatype JsError = TypeError | URIError | OtherError string

text \<open>Truthiness, as the operator \<open>||\<close> and the conditional \<open>?:\<close> test it.\<close>

fun truthy :: "JsValue \<Rightarrow> bool" where
  "truthy JUndefined = False"
| "truthy JNull = False"
| "truthy (JBool b) = b"
| "truthy (JNum n) = (n \<noteq> 0)"
| "truthy (JStr s) = (s \<noteq> [])"
| "truthy (JArr xs) = True"
| "truthy (JObj kvs) = True"

definition js_or :: "JsValue \<Rightarrow> JsValue \<Rightarrow> JsValue" where
  "js_or a b = (if truthy a then a else b)"

fun string_of_nat :: "nat \<Rightarrow> string" where
  "string_of_nat n =
     (if n < 10 then [char_of (48 + n)]
      else string_of_nat (n div 10) @ [char_of (48 + n mod 10)])"

text \<open>The own enumerable property names of a value, as \<open>for .. in\<close> with
  \<open>hasOwnProperty\<close> visits them.\<close>

fun own_keys :: "JsValue \<Rightarrow> string list" where
  "own_keys (JObj kvs) = remdups (map fst kvs)"
| "own_keys (JArr xs) = map string_of_nat [0..<length xs]"
| "own_keys v = []"

text \<open>
  Reading a property \<open>v.k\<close>: a TypeError on \<open>undefined\<close> and \<open>null\<close>,
  \<open>undefined\<close> for a property that is not there. On a primitive the handlers read
  none of the names its prototype defines.
\<close>

fun lookup_prop :: "JsValue \<Rightarrow> string \<Rightarrow> JsValue" where
  "lookup_prop (JObj kvs) k = (case map_of kvs k of None \<Rightarrow> JUndefined | Some v \<Rightarrow> v)"
| "lookup_prop (JArr xs) k =
     (if k = ''length'' then JNum (of_nat (length xs))
      else case map_of (zip (map string_of_nat [0..<length xs]) xs) k of
             None \<Rightarrow> JUndefined | Some v \<Rightarrow> v)"
| "lookup_prop v k = JUndefined"

definition get_prop :: "JsValue \<Rightarrow> string \<Rightarrow> JsError + JsValue" where
  "get_prop v k = (if v = JUndefined \<or> v = JNull then Inl TypeError else Inr (lookup_prop v k))"

text \<open>Sequencing of calls that may throw: the first error ends the computation.\<close>

definition bindE :: "'e + 'a \<Rightarrow> ('a \<Rightarrow> 'e + 'b) \<Rightarrow> 'e + 'b" where
  "bindE m f = (case m of Inl e \<Rightarrow> Inl e | Inr x \<Rightarrow> f x)"

text \<open>Creating or overwriting an own data property \<open>k\<close> with the value \<open>v\<close>.\<close>

fun set_prop :: "string \<Rightarrow> JsValue \<Rightarrow> (string \<times> JsValue) list \<Rightarrow> (string \<times> JsValue) list" where
  "set_prop k v [] = [(k, v)]"
| "set_prop k v ((k', v') # kvs) =
     (if k = k' then (k, v) # kvs else (k', v') # set_prop k v kvs)"

text \<open>\<open>typeof v === 'object'\<close> together with \<open>v !== null\<close>.\<close>

fun is_object :: "JsValue \<Rightarrow> bool" where
  "is_object (JObj kvs) = True"
| "is_object (JArr xs) = True"
| "is_object v = False"

subsection \<open>Requests, native functions and replies\<close>

datatype ArangoErrorNum = ERROR_CURSOR_NOT_FOUND | ERROR_QUERY_EMPTY | ERROR_HTTP_BAD_PARAMETER

datatype RequestType = GET | POST | PUT | DELETE | PATCH | HEAD

text \<open>
  A request as the handlers read it: the URL suffix and the request type; \<open>jsonBody\<close>
  is what \<open>actions.getJsonBody(req, res)\<close> returns for it (\<open>undefined\<close> when the
  body cannot be used).
\<close>

record Request =
  suffix :: "string list"
  requestType :: RequestType
  jsonBody :: JsValue

text \<open>
  What the native \<open>AQL_EXECUTE\<close> hands back: it is not part of the file and is a
  parameter of the handler. A call throws, returns an \<open>Error\<close> instance, returns an
  \<open>ArangoCursor\<close> (named by a number here), or returns some other value.
\<close>

datatype NativeResult = Throws JsError | ErrorObject JsError | CursorObject nat | OtherObject JsValue

text \<open>
  The reply \<open>post_api_cursor\<close> gives: which helper of the \<open>actions\<close> module it calls
  last and with which arguments. \<open>resultCursor\<close> is called with an \<open>ArangoCursor\<close>, which is
  \<open>ResultCursor\<close>, or with some other value, which is \<open>ResultCursorOther\<close>, with the HTTP
  code and, when it is given, with \<open>countRequested\<close>.

  \<open>executed\<close> records the arguments of \<open>AQL_EXECUTE\<close>: the query, the bind variables and
  the options object, the latter by its own properties. \<open>options_proto\<close> is the
  prototype of the options object when the handler has changed it, and \<open>None\<close> when it
  is still that of the object literal.
\<close>

datatype HttpCode = HTTP_OK | HTTP_CREATED | HTTP_ACCEPTED

datatype Reply =
    ResultNotFound ArangoErrorNum
  | ResultBad ArangoErrorNum
  | ResultException JsError
  | ResultCursor nat HttpCode "bool option"
  | ResultCursorOther JsValue HttpCode "bool option"

record Outcome =
  executed :: "(JsValue \<times> JsValue \<times> JsValue) option"
  options_proto :: "JsValue option"
  reply :: Reply

subsection \<open>post_api_cursor\<close>

text \<open>
  The object \<open>options\<close> while the handler builds it: its own properties and its
  prototype, \<open>None\<close> as long as that is the prototype of the object literal.

  The assignment \<open>options[i] = v\<close>. The literal has the own properties \<open>count\<close>,
  \<open>batchSize\<close> and \<open>ttl\<close>. For every name but \<open>__proto__\<close> the assignment creates
  or overwrites an own property. For \<open>__proto__\<close> it reaches the accessor that the
  object inherits: an object or \<open>null\<close> becomes the prototype of \<open>options\<close>, any other
  value is ignored, and no own property is created.
\<close>

type_synonym OptionsObject = "(string \<times> JsValue) list \<times> JsValue option"

fun assign_option :: "string \<Rightarrow> JsValue \<Rightarrow> OptionsObject \<Rightarrow> OptionsObject" where
  "assign_option i v (own, proto) =
     (if i = ''__proto__''
      then (if is_object v \<or> v = JNull then (own, Some v) else (own, proto))
      else (set_prop i v own, proto))"

text \<open>
  The loop \<open>for (var i in json.options)\<close>, over the own property names of
  \<open>json.options\<close>. Every round first calls \<open>json.options.hasOwnProperty(i)\<close>. A parsed
  body holds no function, so when \<open>json.options\<close> has an own property of the name
  \<open>hasOwnProperty\<close> the call is the call of a value that is no function, a TypeError;
  otherwise the inherited method answers true for an own name and the property is assigned.
\<close>

fun copy_options :: "JsValue \<Rightarrow> string list \<Rightarrow> OptionsObject \<Rightarrow> JsError + OptionsObject" where
  "copy_options src [] options = Inr options"
| "copy_options src (i # rest) options =
     (if ''hasOwnProperty'' \<in> set (own_keys src) then Inl TypeError
      else copy_options src rest (assign_option i (lookup_prop src i) options))"

definition build_options :: "JsValue \<Rightarrow> JsError + OptionsObject" where
  "build_options json =
     bindE (get_prop json ''count'') (\<lambda>cnt.
     bindE (get_prop json ''batchSize'') (\<lambda>bs.
     bindE (get_prop json ''ttl'') (\<lambda>ttl.
     bindE (get_prop json ''options'') (\<lambda>opts.
       let options = [(''count'', js_or cnt (JBool False)),
                      (''batchSize'', js_or bs (JNum 1000)),
                      (''ttl'', ttl)]
       in if is_object opts then copy_options opts (own_keys opts) (options, None)
          else Inr (options, None)))))"

text \<open>
  The call of \<open>AQL_EXECUTE\<close> and what follows it. The native sees the options object with
  its own properties and its prototype. Only \<open>cursor instanceof Error\<close> is tested: an
  \<open>Error\<close> goes to \<open>resultException\<close>, every other value, cursor or not, goes to
  \<open>resultCursor\<close> with \<open>HTTP_CREATED\<close> and \<open>countRequested\<close>.
\<close>

definition run_query ::
  "(JsValue \<Rightarrow> JsValue \<Rightarrow> JsValue \<Rightarrow> JsValue option \<Rightarrow> NativeResult)
   \<Rightarrow> JsValue \<Rightarrow> JsValue \<Rightarrow> JsValue \<Rightarrow> JsValue option \<Rightarrow> JsValue \<Rightarrow> JsError + Outcome" where
  "run_query AQL_EXECUTE query bindVars options proto cnt =
     (case AQL_EXECUTE query bindVars options proto of
        Throws e \<Rightarrow> Inl e
      | ErrorObject e \<Rightarrow>
          Inr \<lparr>executed = Some (query, bindVars, options), options_proto = proto,
               reply = ResultException e\<rparr>
      | CursorObject c \<Rightarrow>
          Inr \<lparr>executed = Some (query, bindVars, options), options_proto = proto,
               reply = ResultCursor c HTTP_CREATED (Some (truthy cnt))\<rparr>
      | OtherObject v \<Rightarrow>
          Inr \<lparr>executed = Some (query, bindVars, options), options_proto = proto,
               reply = ResultCursorOther v HTTP_CREATED (Some (truthy cnt))\<rparr>)"

definition post_api_cursor ::
  "(JsValue \<Rightarrow> JsValue \<Rightarrow> JsValue \<Rightarrow> JsValue option \<Rightarrow> NativeResult) \<Rightarrow> Request
   \<Rightarrow> JsError + Outcome" where
  "post_api_cursor AQL_EXECUTE req =
     (if length (suffix req) \<noteq> 0
      then Inr \<lparr>executed = None, options_proto = None,
                reply = ResultNotFound ERROR_CURSOR_NOT_FOUND\<rparr>
      else if jsonBody req = JUndefined
      then Inr \<lparr>executed = None, options_proto = None, reply = ResultBad ERROR_QUERY_EMPTY\<rparr>
      else
        bindE (build_options (jsonBody req)) (\<lambda>options.
        bindE (get_prop (jsonBody req) ''query'') (\<lambda>query.
          if query \<noteq> JUndefined then
            bindE (get_prop (jsonBody req) ''bindVars'') (\<lambda>bindVars.
            bindE (get_prop (jsonBody req) ''count'') (\<lambda>cnt.
              run_query AQL_EXECUTE query bindVars (JObj (fst options)) (snd options) cnt))
          else Inr \<lparr>executed = None, options_proto = None,
                    reply = ResultBad ERROR_QUERY_EMPTY\<rparr>)))"

text \<open>The body with one attribute left out, and a native that always hands back a
  cursor (for the examples).\<close>

fun omit_prop :: "string \<Rightarrow> JsValue \<Rightarrow> JsValue" where
  "omit_prop k (JObj kvs) = JObj (filter (\<lambda>kv. fst kv \<noteq> k) kvs)"
| "omit_prop k v = v"

definition AQL_EXECUTE_cursor ::
  "JsValue \<Rightarrow> JsValue \<Rightarrow> JsValue \<Rightarrow> JsValue option \<Rightarrow> NativeResult" where
  "AQL_EXECUTE_cursor query bindVars options proto = CursorObject 1"

section \<open>The optimizer rules (arangod/Aql/OptimizerRules.cpp)\<close>

subsection \<open>Variables and expression trees\<close>

text \<open>
  A query variable (\<open>Variable::id\<close>, \<open>Variable::name\<close>) and the nodes of an expression
  tree. The classes \<open>Variable\<close>, \<open>AstNode\<close> and \<open>Expression\<close> are declared outside the
  rules' file; the datatype below has one constructor for each node type the rules test
  (\<open>node->type\<close>), with the data the rules read from it: the variable of a reference
  (\<open>getData()\<close>), the attribute name of an attribute access (\<open>getStringValue()\<close>) and
  its base (\<open>getMember(0)\<close>), the two operands of a binary operator.
\<close>

record Variable =
  var_id :: nat
  var_name :: string

datatype AstValue = ValueNull | ValueBool bool | ValueInt int | ValueString string

datatype BinaryOperator =
    OPERATOR_BINARY_AND | OPERATOR_BINARY_OR
  | OPERATOR_BINARY_EQ | OPERATOR_BINARY_NE
  | OPERATOR_BINARY_LT | OPERATOR_BINARY_GT | OPERATOR_BINARY_LE | OPERATOR_BINARY_GE
  | OPERATOR_BINARY_OTHER

datatype AstNode =
    NODE_TYPE_REFERENCE Variable
  | NODE_TYPE_ATTRIBUTE_ACCESS string AstNode
  | NODE_TYPE_VALUE AstValue
  | NODE_TYPE_OPERATOR_BINARY BinaryOperator AstNode AstNode
  | NODE_TYPE_OTHER "AstNode list"

fun is_attribute_access :: "AstNode \<Rightarrow> bool" where
  "is_attribute_access (NODE_TYPE_ATTRIBUTE_ACCESS a m) = True"
| "is_attribute_access n = False"

fun is_value :: "AstNode \<Rightarrow> bool" where
  "is_value (NODE_TYPE_VALUE v) = True"
| "is_value n = False"

text \<open>
  An expression as the rules read it: its root (\<open>expression()->node()\<close>) and whether it
  can throw (\<open>expression()->canThrow()\<close>). \<open>AstNode::isConstant\<close> and
  \<open>AstNode::toBoolean\<close> are not among the sources and are parameters of the rule that
  calls them.
\<close>

record Expression =
  node :: AstNode
  canThrow :: bool

subsection \<open>Range bounds\<close>

text \<open>
  \<open>RangeInfoBound(val, include)\<close>: the node of the constant and the inclusive flag. A
  \<open>RangeInfo\<close> is a pair of bounds, each of which may be absent (a null pointer).
\<close>

record RangeInfoBound =
  bound :: AstNode
  inclusive :: bool

record RangeInfo =
  low :: "RangeInfoBound option"
  high :: "RangeInfoBound option"

text \<open>
  Modelled from the spec: the class \<open>RangesInfo\<close> is not among the sources. The spec
  gives a mapping from (bound variable name, attribute path) to a (low bound, high bound)
  pair, bounds absent on either side; a later contribution on the same attribute
  overwrites the earlier one rather than intersecting; and for \<open>a > 1 AND a < 10\<close> the
  accumulated bound has low 1 and high 10. So a contribution overwrites the side it
  gives and leaves the other side as it was. \<open>find\<close> hands back the attributes of one
  variable, or nothing when the variable has no range.
\<close>

type_synonym RangesInfo = "(string \<times> (string \<times> RangeInfo) list) list"

definition RangesInfo_find :: "RangesInfo \<Rightarrow> string \<Rightarrow> (string \<times> RangeInfo) list option" where
  "RangesInfo_find ranges name = map_of ranges name"

definition RangesInfo_insert ::
  "string \<Rightarrow> string \<Rightarrow> RangeInfoBound option \<Rightarrow> RangeInfoBound option \<Rightarrow> RangesInfo \<Rightarrow> RangesInfo" where
  "RangesInfo_insert name attr lo hi ranges =
     (let m = (case map_of ranges name of None \<Rightarrow> [] | Some m \<Rightarrow> m);
          old = (case map_of m attr of None \<Rightarrow> \<lparr>low = None, high = None\<rparr> | Some ri \<Rightarrow> ri);
          new = \<lparr>low = (case lo of None \<Rightarrow> low old | Some b \<Rightarrow> Some b),
                 high = (case hi of None \<Rightarrow> high old | Some b \<Rightarrow> Some b)\<rparr>
      in AList.update name (AList.update attr new m) ranges)"

text \<open>The calls of \<open>insert\<close> in the order they are made, for statements that hold for
  any \<open>RangesInfo\<close>.\<close>

definition log_insert ::
  "string \<Rightarrow> string \<Rightarrow> RangeInfoBound option \<Rightarrow> RangeInfoBound option
   \<Rightarrow> (string \<times> string \<times> RangeInfoBound option \<times> RangeInfoBound option) list
   \<Rightarrow> (string \<times> string \<times> RangeInfoBound option \<times> RangeInfoBound option) list" where
  "log_insert name attr lo hi calls = calls @ [(name, attr, lo, hi)]"

subsection \<open>Execution nodes and plans\<close>

datatype Exception = AssertionFailed | InternalError | InvalidAccess | OutOfMemory | OtherException string

datatype Index = Index nat "string list"

datatype NodeType = SINGLETON | ENUMERATE_COLLECTION | INDEX_RANGE | CALCULATION | FILTER
  | NORESULTS | RETURN | OTHER_NODE

text \<open>
  What a node of each class carries beyond the common part: the vocbase, the collection
  and the out-variable of an \<open>EnumerateCollectionNode\<close>; these, the index and the
  ranges of an \<open>IndexRangeNode\<close>; the expression of a \<open>CalculationNode\<close>. The type
  tag of a node follows from its class, so the unchecked \<open>static_cast\<close> after a test
  of \<open>getType()\<close> is a case distinction.
\<close>

datatype NodeKind =
    SingletonNode
  | EnumerateCollectionNode string string Variable
  | IndexRangeNode string string Variable Index "RangeInfo list"
  | CalculationNode Expression
  | FilterNode
  | NoResultsNode
  | ReturnNode
  | OtherNode

text \<open>
  A node: its id, its class, the ids of the nodes it depends on, and what the accessors
  \<open>getVariablesUsedHere\<close>, \<open>getVariablesSetHere\<close> and \<open>getVarsUsedLater\<close> give. A node
  is referred to by its id; its parents are the nodes of the plan that depend on it.
\<close>

record ExecutionNode =
  node_id :: nat
  kind :: NodeKind
  getDependencies :: "nat list"
  getVariablesUsedHere :: "Variable list"
  getVariablesSetHere :: "Variable list"
  getVarsUsedLater :: "Variable list"

fun type_of_kind :: "NodeKind \<Rightarrow> NodeType" where
  "type_of_kind SingletonNode = SINGLETON"
| "type_of_kind (EnumerateCollectionNode vocbase collection outVariable) = ENUMERATE_COLLECTION"
| "type_of_kind (IndexRangeNode vocbase collection outVariable idx ranges) = INDEX_RANGE"
| "type_of_kind (CalculationNode e) = CALCULATION"
| "type_of_kind FilterNode = FILTER"
| "type_of_kind NoResultsNode = NORESULTS"
| "type_of_kind ReturnNode = RETURN"
| "type_of_kind OtherNode = OTHER_NODE"

definition getType :: "ExecutionNode \<Rightarrow> NodeType" where
  "getType n = type_of_kind (kind n)"

text \<open>
  Modelled from the spec: the class \<open>ExecutionPlan\<close> is not among the sources. The spec
  gives a plan that owns its nodes, an id-to-node index, a maintained index from a
  variable id to the node that sets it, and ids that are unique and increase. \<open>nodes\<close>
  are the nodes of the graph, \<open>varSetBy\<close> is the maintained index, \<open>next_id\<close> the next
  id to give out. A node that is taken out of the graph leaves \<open>nodes\<close>.
\<close>

record ExecutionPlan =
  nodes :: "ExecutionNode list"
  varSetBy :: "(nat \<times> ExecutionNode) list"
  next_id :: nat

text \<open>Modelled from the spec: \<open>getNodeById(id)\<close>, the lookup in the id-to-node index.\<close>

definition getNodeById :: "ExecutionPlan \<Rightarrow> nat \<Rightarrow> ExecutionNode option" where
  "getNodeById plan i = find (\<lambda>n. node_id n = i) (nodes plan)"

text \<open>Modelled from the spec: \<open>getVarSetBy(variableId)\<close>, node or none, by lookup in the
  maintained index.\<close>

definition getVarSetBy :: "ExecutionPlan \<Rightarrow> nat \<Rightarrow> ExecutionNode option" where
  "getVarSetBy plan variableId = map_of (varSetBy plan) variableId"

text \<open>
  Modelled from the spec: \<open>findNodesOfType(kind, true)\<close>, the nodes of the kind as an
  ordered sequence. The spec's order is that of a traversal from the root; here it is
  the order of \<open>nodes\<close>. The general statements below do not depend on the order; in
  the examples with two filters the ids of the new nodes follow it.
\<close>

definition findNodesOfType :: "ExecutionPlan \<Rightarrow> NodeType \<Rightarrow> ExecutionNode list" where
  "findNodesOfType plan t = filter (\<lambda>n. getType n = t) (nodes plan)"

text \<open>Modelled from the spec: the parents (consumers) of a node are the nodes that list it
  as a dependency.\<close>

definition getParents :: "ExecutionPlan \<Rightarrow> nat \<Rightarrow> ExecutionNode list" where
  "getParents plan i = filter (\<lambda>p. i \<in> set (getDependencies p)) (nodes plan)"

text \<open>Modelled from the spec: \<open>nextId()\<close> and \<open>registerNode(node)\<close>; ids are unique within
  the plan and increase, and the plan takes ownership of a registered node.\<close>

definition nextId :: "ExecutionPlan \<Rightarrow> nat \<times> ExecutionPlan" where
  "nextId plan = (next_id plan, plan\<lparr>next_id := Suc (next_id plan)\<rparr>)"

definition registerNode :: "ExecutionNode \<Rightarrow> ExecutionPlan \<Rightarrow> ExecutionPlan" where
  "registerNode n plan = plan\<lparr>nodes := nodes plan @ [n]\<rparr>"

definition replace_id :: "nat \<Rightarrow> nat \<Rightarrow> nat list \<Rightarrow> nat list" where
  "replace_id old new deps = map (\<lambda>x. if x = old then new else x) deps"

text \<open>
  Modelled from the spec: \<open>replaceNode(old, new, parent)\<close> splices \<open>new\<close> in place of
  \<open>old\<close> under the given parent, which must list \<open>old\<close> as a dependency: \<open>new\<close> takes
  the dependencies of \<open>old\<close>, the parent depends on \<open>new\<close> where it depended on
  \<open>old\<close>, and \<open>old\<close> leaves the graph. A null argument is an invalid access.
\<close>

definition replaceNode :: "nat \<Rightarrow> nat \<Rightarrow> nat \<Rightarrow> ExecutionPlan \<Rightarrow> Exception + ExecutionPlan" where
  "replaceNode old new parent plan =
     (case (getNodeById plan old, getNodeById plan new, getNodeById plan parent) of
        (Some oldNode, Some newNode, Some parentNode) \<Rightarrow>
          if old \<in> set (getDependencies parentNode) then
            Inr (plan\<lparr>nodes :=
              map (\<lambda>m. if node_id m = new then m\<lparr>getDependencies := getDependencies oldNode\<rparr>
                       else if node_id m = parent
                       then m\<lparr>getDependencies := replace_id old new (getDependencies m)\<rparr>
                       else m)
                  (filter (\<lambda>m. node_id m \<noteq> old) (nodes plan))\<rparr>)
          else Inl InternalError
      | _ \<Rightarrow> Inl InvalidAccess)"

text \<open>
  Modelled from the spec: \<open>unlinkNodes(set of nodes)\<close>. Each removed node must have
  exactly one dependency; every parent of the removed node is rewired to depend directly
  on that one dependency instead; it fails if a targeted node has zero or more than one
  dependency. The nodes of the set are removed one after the other.
\<close>

definition unlinkNode :: "nat \<Rightarrow> ExecutionPlan \<Rightarrow> Exception + ExecutionPlan" where
  "unlinkNode i plan =
     (case getNodeById plan i of
        None \<Rightarrow> Inl InvalidAccess
      | Some n \<Rightarrow>
          (case getDependencies n of
             [d] \<Rightarrow>
               Inr (plan\<lparr>nodes :=
                 map (\<lambda>p. p\<lparr>getDependencies := replace_id i d (getDependencies p)\<rparr>)
                     (filter (\<lambda>m. node_id m \<noteq> i) (nodes plan))\<rparr>)
           | _ \<Rightarrow> Inl InternalError))"

text \<open>A loop whose body may throw: the first exception ends it.\<close>

fun foldE :: "('a \<Rightarrow> 's \<Rightarrow> 'e + 's) \<Rightarrow> 'a list \<Rightarrow> 's \<Rightarrow> 'e + 's" where
  "foldE f [] s = Inr s"
| "foldE f (x # xs) s = bindE (f x s) (foldE f xs)"

definition unlinkNodes :: "nat list \<Rightarrow> ExecutionPlan \<Rightarrow> Exception + ExecutionPlan" where
  "unlinkNodes toRemove plan = foldE unlinkNode toRemove plan"

text \<open>Modelled from the spec: \<open>new NoResultsNode(id)\<close>, a terminal node that reads and
  sets no variable.\<close>

definition NoResultsNode_new :: "nat \<Rightarrow> ExecutionNode" where
  "NoResultsNode_new i =
     \<lparr>node_id = i, kind = NoResultsNode, getDependencies = [], getVariablesUsedHere = [],
      getVariablesSetHere = [], getVarsUsedLater = []\<rparr>"

subsection \<open>removeUnnecessaryFiltersRule\<close>

text \<open>
  What a rule hands back when it returns \<open>TRI_ERROR_NO_ERROR\<close>: the plan as the rule
  left it and the flag \<open>keep\<close>. A failed \<open>TRI_ASSERT\<close> and an exception are the
  left summand. The set \<open>toUnlink\<close> is a list of node ids without repetition.

  \<open>filterStep\<close> is the body of the loop over the filter nodes: the node \<open>n\<close>, the plan
  and \<open>toUnlink\<close> as they are when the node is reached.
\<close>

record RuleResult =
  plan_after :: ExecutionPlan
  keep :: bool

definition filterStep ::
  "(AstNode \<Rightarrow> bool) \<Rightarrow> (AstNode \<Rightarrow> bool) \<Rightarrow> ExecutionNode \<Rightarrow> ExecutionPlan \<times> nat list
   \<Rightarrow> Exception + ExecutionPlan \<times> nat list" where
  "filterStep isConstant toBoolean n st =
     (case st of (plan, toUnlink) \<Rightarrow>
      if length (getVariablesUsedHere n) \<noteq> 1 then Inl AssertionFailed
      else
        (case getVarSetBy plan (var_id (getVariablesUsedHere n ! 0)) of
           None \<Rightarrow> Inr (plan, toUnlink)
         | Some setter \<Rightarrow>
             (case kind setter of
                CalculationNode s \<Rightarrow>
                  if \<not> isConstant (node s) then Inr (plan, toUnlink)
                  else if canThrow s then Inl AssertionFailed
                  else if toBoolean (node s) then Inr (plan, List.insert (node_id n) toUnlink)
                  else
                    (let parents = getParents plan (node_id n) in
                     if length parents \<noteq> 1 then Inl AssertionFailed
                     else
                       (case nextId plan of (i, plan1) \<Rightarrow>
                          bindE (replaceNode (node_id n) i (node_id (parents ! 0))
                                   (registerNode (NoResultsNode_new i) plan1))
                            (\<lambda>plan2. Inr (plan2, toUnlink))))
              | _ \<Rightarrow> Inr (plan, toUnlink))))"

definition removeUnnecessaryFiltersRule ::
  "(AstNode \<Rightarrow> bool) \<Rightarrow> (AstNode \<Rightarrow> bool) \<Rightarrow> ExecutionPlan \<Rightarrow> Exception + RuleResult" where
  "removeUnnecessaryFiltersRule isConstant toBoolean plan =
     bindE (foldE (filterStep isConstant toBoolean) (findNodesOfType plan FILTER) (plan, []))
       (\<lambda>st. case st of (plan1, toUnlink) \<Rightarrow>
          bindE (if toUnlink \<noteq> [] then unlinkNodes toUnlink plan1 else Inr plan1)
            (\<lambda>plan2. Inr \<lparr>plan_after = plan2, keep = True\<rparr>))"

subsection \<open>removeUnnecessaryCalculationsRule\<close>



subsection \<open>CalculationNodeFinder::buildRangeInfo\<close>

text \<open>
  The two strings the function writes through its reference parameters and the ranges
  it inserts into are passed as a triple \<open>(enumCollVar, attr, ranges)\<close> and handed
  back. \<open>RangesInfo::insert\<close> is the parameter \<open>ins\<close>. \<open>attr.substr(0, attr.size()-1)\<close>
  is the string without its last character (all of it when it is empty).
\<close>

definition substr_drop_last :: "string \<Rightarrow> string" where
  "substr_drop_last attr = take (length attr - 1) attr"

fun insert_range ::
  "(string \<Rightarrow> string \<Rightarrow> RangeInfoBound option \<Rightarrow> RangeInfoBound option \<Rightarrow> 'r \<Rightarrow> 'r)
   \<Rightarrow> RangeInfoBound option \<Rightarrow> RangeInfoBound option \<Rightarrow> string \<times> string \<times> 'r \<Rightarrow> string \<times> string \<times> 'r" where
  "insert_range ins lo hi (enumCollVar, attr, ranges) =
     (if enumCollVar \<noteq> []
      then (enumCollVar, attr, ins enumCollVar (substr_drop_last attr) lo hi ranges)
      else (enumCollVar, attr, ranges))"

fun reset_attr :: "string \<times> string \<times> 'r \<Rightarrow> string \<times> string \<times> 'r" where
  "reset_attr (enumCollVar, attr, ranges) = (enumCollVar, [], ranges)"

fun append_attr :: "string \<Rightarrow> string \<times> string \<times> 'r \<Rightarrow> string \<times> string \<times> 'r" where
  "append_attr attributeName (enumCollVar, attr, ranges) =
     (if enumCollVar \<noteq> [] then (enumCollVar, attr @ attributeName @ ''.'', ranges)
      else (enumCollVar, attr, ranges))"

fun set_enumCollVar :: "string \<Rightarrow> string \<times> string \<times> 'r \<Rightarrow> string \<times> string \<times> 'r" where
  "set_enumCollVar name (enumCollVar, attr, ranges) = (name, attr, ranges)"

fun buildRangeInfo ::
  "(string \<Rightarrow> string \<Rightarrow> RangeInfoBound option \<Rightarrow> RangeInfoBound option \<Rightarrow> 'r \<Rightarrow> 'r)
   \<Rightarrow> ExecutionPlan \<Rightarrow> AstNode \<Rightarrow> string \<times> string \<times> 'r \<Rightarrow> string \<times> string \<times> 'r" where
  "buildRangeInfo ins plan (NODE_TYPE_REFERENCE x) st =
     (case getVarSetBy plan (var_id x) of
        None \<Rightarrow> st
      | Some setter \<Rightarrow>
          if getType setter = ENUMERATE_COLLECTION then set_enumCollVar (var_name x) st else st)"
| "buildRangeInfo ins plan (NODE_TYPE_ATTRIBUTE_ACCESS attributeName member0) st =
     append_attr attributeName (buildRangeInfo ins plan member0 st)"
| "buildRangeInfo ins plan (NODE_TYPE_OPERATOR_BINARY op lhs rhs) st =
     (if op = OPERATOR_BINARY_EQ then
        (if is_attribute_access rhs \<and> is_value lhs then
           insert_range ins (Some \<lparr>bound = lhs, inclusive = True\<rparr>)
             (Some \<lparr>bound = lhs, inclusive = True\<rparr>) (buildRangeInfo ins plan rhs st)
         else if is_attribute_access lhs \<and> is_value rhs then
           insert_range ins (Some \<lparr>bound = rhs, inclusive = True\<rparr>)
             (Some \<lparr>bound = rhs, inclusive = True\<rparr>) (buildRangeInfo ins plan lhs st)
         else st)
      else if op = OPERATOR_BINARY_LT \<or> op = OPERATOR_BINARY_GT \<or>
              op = OPERATOR_BINARY_LE \<or> op = OPERATOR_BINARY_GE then
        (if is_attribute_access rhs \<and> is_value lhs then
           (if op = OPERATOR_BINARY_GE \<or> op = OPERATOR_BINARY_GT then
              insert_range ins None
                (Some \<lparr>bound = lhs,
                       inclusive = (op = OPERATOR_BINARY_LE \<or> op = OPERATOR_BINARY_GE)\<rparr>)
                (buildRangeInfo ins plan rhs st)
            else
              insert_range ins
                (Some \<lparr>bound = lhs,
                       inclusive = (op = OPERATOR_BINARY_LE \<or> op = OPERATOR_BINARY_GE)\<rparr>)
                None (buildRangeInfo ins plan rhs st))
         else if is_attribute_access lhs \<and> is_value rhs then
           (if op = OPERATOR_BINARY_GE \<or> op = OPERATOR_BINARY_GT then
              insert_range ins
                (Some \<lparr>bound = rhs,
                       inclusive = (op = OPERATOR_BINARY_LE \<or> op = OPERATOR_BINARY_GE)\<rparr>)
                None (buildRangeInfo ins plan lhs st)
            else
              insert_range ins None
                (Some \<lparr>bound = rhs,
                       inclusive = (op = OPERATOR_BINARY_LE \<or> op = OPERATOR_BINARY_GE)\<rparr>)
                (buildRangeInfo ins plan lhs st))
         else st)
      else if op = OPERATOR_BINARY_AND then
        buildRangeInfo ins plan rhs (reset_attr (buildRangeInfo ins plan lhs (reset_attr st)))
      else st)"
| "buildRangeInfo ins plan (NODE_TYPE_VALUE v) st = st"
| "buildRangeInfo ins plan (NODE_TYPE_OTHER ms) st = st"

text \<open>
  For the statements: the base variable and the attribute names of an access
  \<open>x.a\<^sub>1. ... .a\<^sub>n\<close>, and the attribute path \<open>a\<^sub>1. ... .a\<^sub>n\<close> written with dots.
\<close>

fun attribute_path :: "AstNode \<Rightarrow> (Variable \<times> string list) option" where
  "attribute_path (NODE_TYPE_REFERENCE x) = Some (x, [])"
| "attribute_path (NODE_TYPE_ATTRIBUTE_ACCESS a m) =
     (case attribute_path m of None \<Rightarrow> None | Some (x, names) \<Rightarrow> Some (x, names @ [a]))"
| "attribute_path n = None"

fun dotted :: "string list \<Rightarrow> string" where
  "dotted [] = []"
| "dotted [a] = a"
| "dotted (a # b # names) = a @ ''.'' @ dotted (b # names)"

subsection \<open>The plan of the spec's example\<close>

text \<open>
  \<open>Singleton \<rightarrow> EnumerateCollection(coll) \<rightarrow> Calculation(t = p.a == 5) \<rightarrow> Filter(t) \<rightarrow>
  Return(p)\<close>, with the node ids 1 to 5, and the expressions \<open>p.a > 1\<close> and
  \<open>p.a < 10\<close>.
\<close>

definition var_p :: Variable where
  "var_p = \<lparr>var_id = 1, var_name = ''p''\<rparr>"

definition var_t :: Variable where
  "var_t = \<lparr>var_id = 2, var_name = ''t''\<rparr>"

definition access_p_a :: AstNode where
  "access_p_a = NODE_TYPE_ATTRIBUTE_ACCESS ''a'' (NODE_TYPE_REFERENCE var_p)"

definition example_singleton :: ExecutionNode where
  "example_singleton =
     \<lparr>node_id = 1, kind = SingletonNode, getDependencies = [], getVariablesUsedHere = [],
      getVariablesSetHere = [], getVarsUsedLater = [var_p, var_t]\<rparr>"

definition example_enumerate :: ExecutionNode where
  "example_enumerate =
     \<lparr>node_id = 2, kind = EnumerateCollectionNode ''db'' ''coll'' var_p,
      getDependencies = [1], getVariablesUsedHere = [], getVariablesSetHere = [var_p],
      getVarsUsedLater = [var_p, var_t]\<rparr>"

definition example_calculation :: ExecutionNode where
  "example_calculation =
     \<lparr>node_id = 3,
      kind = CalculationNode
        \<lparr>node = NODE_TYPE_OPERATOR_BINARY OPERATOR_BINARY_EQ access_p_a
                  (NODE_TYPE_VALUE (ValueInt 5)),
         canThrow = False\<rparr>,
      getDependencies = [2], getVariablesUsedHere = [var_p], getVariablesSetHere = [var_t],
      getVarsUsedLater = [var_p, var_t]\<rparr>"

definition example_filter :: ExecutionNode where
  "example_filter =
     \<lparr>node_id = 4, kind = FilterNode, getDependencies = [3], getVariablesUsedHere = [var_t],
      getVariablesSetHere = [], getVarsUsedLater = [var_p]\<rparr>"

definition example_return :: ExecutionNode where
  "example_return =
     \<lparr>node_id = 5, kind = ReturnNode, getDependencies = [4], getVariablesUsedHere = [var_p],
      getVariablesSetHere = [], getVarsUsedLater = []\<rparr>"

definition example_plan :: ExecutionPlan where
  "example_plan =
     \<lparr>nodes = [example_singleton, example_enumerate, example_calculation, example_filter,
               example_return],
      varSetBy = [(1, example_enumerate), (2, example_calculation)],
      next_id = 6\<rparr>"

subsection \<open>Vocabulary for the two removal rules\<close>

text \<open>The ids of a plan's nodes, in container order, and the dependency list stored under an
  id. A plan is well-formed when its ids are pairwise distinct and below the counter that
  \<open>nextId\<close> hands out.\<close>

definition node_ids :: "ExecutionPlan \<Rightarrow> nat list" where
  "node_ids plan = map node_id (nodes plan)"

definition deps_of :: "ExecutionPlan \<Rightarrow> nat \<Rightarrow> nat list option" where
  "deps_of plan k = map_option getDependencies (getNodeById plan k)"

definition ids_below :: "ExecutionPlan \<Rightarrow> bool" where
  "ids_below plan \<longleftrightarrow> (\<forall>m \<in> set (nodes plan). node_id m < next_id plan)"


text \<open>The three ways in which lines 65-78 skip a filter: its variable has no setter, the setter
  is not a calculation, or the setter's expression is not constant.\<close>

definition undecidable :: "(AstNode \<Rightarrow> bool) \<Rightarrow> ExecutionPlan \<Rightarrow> ExecutionNode \<Rightarrow> bool" where
  "undecidable isConstant plan n \<longleftrightarrow>
     getVarSetBy plan (var_id (getVariablesUsedHere n ! 0)) = None
     \<or> (\<exists>setter. getVarSetBy plan (var_id (getVariablesUsedHere n ! 0)) = Some setter
           \<and> getType setter \<noteq> CALCULATION)
     \<or> (\<exists>setter s. getVarSetBy plan (var_id (getVariablesUsedHere n ! 0)) = Some setter
           \<and> kind setter = CalculationNode s \<and> \<not> isConstant (node s))"

text \<open>The filter's variable is set by a calculation whose expression is constant and true
  (lines 84-88).\<close>

definition always_true ::
  "(AstNode \<Rightarrow> bool) \<Rightarrow> (AstNode \<Rightarrow> bool) \<Rightarrow> ExecutionPlan \<Rightarrow> ExecutionNode \<Rightarrow> bool" where
  "always_true isConstant toBoolean plan n \<longleftrightarrow>
     (\<exists>setter s. getVarSetBy plan (var_id (getVariablesUsedHere n ! 0)) = Some setter
        \<and> kind setter = CalculationNode s \<and> isConstant (node s) \<and> toBoolean (node s))"


text \<open>The plan after lines 89-98 have put a new NoResults node in the place of node \<open>old\<close>.\<close>

definition replaced_in ::
  "ExecutionPlan \<Rightarrow> nat \<Rightarrow> ExecutionPlan \<Rightarrow> bool" where
  "replaced_in plan old plan' \<longleftrightarrow>
     (\<exists>parent. replaceNode old (next_id plan) parent
        (registerNode (NoResultsNode_new (next_id plan)) (plan\<lparr>next_id := Suc (next_id plan)\<rparr>))
        = Inr plan')"

subsection \<open>Plans for the removal rules\<close>

text \<open>\<open>Expression::isConstant\<close> and \<open>Expression::toBoolean\<close> are parameters of the rules. On the
  plans below they are instantiated with the reading of literal values: a literal is constant,
  and its truth value is that of the AQL literal.\<close>

fun isConstant_value :: "AstNode \<Rightarrow> bool" where
  "isConstant_value (NODE_TYPE_VALUE v) = True"
| "isConstant_value n = False"

fun toBoolean_value :: "AstNode \<Rightarrow> bool" where
  "toBoolean_value (NODE_TYPE_VALUE (ValueBool b)) = b"
| "toBoolean_value (NODE_TYPE_VALUE (ValueInt i)) = (i \<noteq> 0)"
| "toBoolean_value (NODE_TYPE_VALUE (ValueString s)) = (s \<noteq> [])"
| "toBoolean_value n = False"

definition plan_node ::
  "nat \<Rightarrow> NodeKind \<Rightarrow> nat list \<Rightarrow> Variable list \<Rightarrow> Variable list \<Rightarrow> Variable list \<Rightarrow> ExecutionNode" where
  "plan_node i k deps used sets later =
     \<lparr>node_id = i, kind = k, getDependencies = deps, getVariablesUsedHere = used,
      getVariablesSetHere = sets, getVarsUsedLater = later\<rparr>"














subsection \<open>A plan with an alias of the collection variable\<close>

text \<open>The example plan with \<open>LET q = p\<close> between the EnumerateCollection node and the
  calculation, which now tests \<open>q.a == 5\<close>: \<open>q\<close> is set by a calculation whose expression
  is the reference to \<open>p\<close>, and \<open>p\<close> is set by the EnumerateCollection node.\<close>

definition var_q :: Variable where
  "var_q = \<lparr>var_id = 3, var_name = ''q''\<rparr>"

definition access_q_a :: AstNode where
  "access_q_a = NODE_TYPE_ATTRIBUTE_ACCESS ''a'' (NODE_TYPE_REFERENCE var_q)"

definition alias_calculation :: ExecutionNode where
  "alias_calculation =
     plan_node 3 (CalculationNode \<lparr>node = NODE_TYPE_REFERENCE var_p, canThrow = False\<rparr>)
       [2] [var_p] [var_q] [var_q, var_t]"

definition alias_plan :: ExecutionPlan where
  "alias_plan =
     \<lparr>nodes = [example_singleton, example_enumerate, alias_calculation,
               plan_node 4
                 (CalculationNode
                    \<lparr>node = NODE_TYPE_OPERATOR_BINARY OPERATOR_BINARY_EQ access_q_a
                              (NODE_TYPE_VALUE (ValueInt 5)),
                     canThrow = False\<rparr>)
                 [3] [var_q] [var_t] [var_q, var_t],
               plan_node 5 FilterNode [4] [var_t] [] [var_q],
               plan_node 6 ReturnNode [5] [var_q] [] []],
      varSetBy = [(1, example_enumerate), (3, alias_calculation)],
      next_id = 7\<rparr>"

subsection \<open>CalculationNodeFinder::before and useIndexRange\<close>

text \<open>What the walker calls and the sources do not contain is a parameter of the model:
  \<open>ExecutionPlan::clone\<close> (which may throw), \<open>EnumerateCollectionNode::getIndexes\<close> (the index
  catalog), the constructor of \<open>IndexRangeNode\<close> (which may throw) and the fault that
  \<open>registerNode\<close> may raise while it stores the node. \<open>before\<close> looks the copied node up in the
  clone under the id it has in the original, \<open>newPlan->getNodeById(node->id())\<close>, so the copy
  that \<open>clone\<close> hands back is used as it is.\<close>

record Env =
  clone :: "ExecutionPlan \<Rightarrow> Exception + ExecutionPlan"
  getIndexes :: "ExecutionNode \<Rightarrow> string list \<Rightarrow> Index list"
  IndexRangeNode_new ::
    "nat \<Rightarrow> string \<Rightarrow> string \<Rightarrow> Variable \<Rightarrow> Index \<Rightarrow> RangeInfo list \<Rightarrow> Exception + ExecutionNode"
  registerNode_throws :: "ExecutionNode \<Rightarrow> ExecutionPlan \<Rightarrow> Exception option"

text \<open>Plans are heap objects that the rule reaches through pointers: the store maps an address
  to the plan that lives there, \<open>new\<close> takes an unused address and \<open>delete\<close> frees one. A node
  between its construction and its registration belongs to no plan; \<open>unowned\<close> lists these.\<close>

record Heap =
  plans :: "(nat \<times> ExecutionPlan) list"
  unowned :: "ExecutionNode list"

definition plan_at :: "Heap \<Rightarrow> nat \<Rightarrow> ExecutionPlan option" where
  "plan_at h a = map_of (plans h) a"

definition fresh_address :: "Heap \<Rightarrow> nat" where
  "fresh_address h = Suc (foldr max (map fst (plans h)) 0)"

definition new_plan :: "ExecutionPlan \<Rightarrow> Heap \<Rightarrow> nat \<times> Heap" where
  "new_plan plan h = (fresh_address h, h\<lparr>plans := (fresh_address h, plan) # plans h\<rparr>)"

definition store_plan :: "nat \<Rightarrow> ExecutionPlan \<Rightarrow> Heap \<Rightarrow> Heap" where
  "store_plan a plan h = h\<lparr>plans := AList.update a plan (plans h)\<rparr>"

definition delete_plan :: "nat \<Rightarrow> Heap \<Rightarrow> Heap" where
  "delete_plan a h = h\<lparr>plans := AList.delete a (plans h)\<rparr>"

definition new_node :: "ExecutionNode \<Rightarrow> Heap \<Rightarrow> Heap" where
  "new_node n h = h\<lparr>unowned := n # unowned h\<rparr>"

definition delete_node :: "ExecutionNode \<Rightarrow> Heap \<Rightarrow> Heap" where
  "delete_node n h = h\<lparr>unowned := remove1 n (unowned h)\<rparr>"

text \<open>The members of the class (lines 246-251). \<open>_plan\<close> is a pointer, here an address of the
  store. \<open>_out\<close> is declared \<open>Optimizer::PlanList _out\<close>, a list held by value and initialised
  from the constructor's reference argument, \<open>_out(out)\<close> in line 257: the finder owns a copy of
  the caller's list. \<open>_prev\<close> starts as \<open>nullptr\<close>.\<close>

record CalculationNodeFinder =
  f_ranges :: RangesInfo
  f_plan :: nat
  f_var :: Variable
  f_out :: "nat list"
  f_prev :: "nat option"

definition new_finder :: "nat \<Rightarrow> Variable \<Rightarrow> nat list \<Rightarrow> CalculationNodeFinder" where
  "new_finder plan v out =
     \<lparr>f_ranges = [], f_plan = plan, f_var = v, f_out = out, f_prev = None\<rparr>"

text \<open>Lines 293-311, for one index, in three parts. \<open>construct\<close> is the \<open>try\<close> block with its
  handler: the constructor is given \<open>newPlan->nextId()\<close>; when it throws, \<open>newNode\<close> is still
  null and only the clone is deleted; when \<open>registerNode\<close> throws, the node and the clone are
  deleted; the exception is thrown on in both cases. \<open>splice\<close> is lines 307-310:
  \<open>replaceNode\<close> on the clone, under the node visited before, \<open>_prev\<close>, whose null value cannot
  be dereferenced, and \<open>_out.push_back(newPlan)\<close> on the finder's own list.\<close>

definition splice ::
  "ExecutionNode \<Rightarrow> ExecutionNode \<Rightarrow> nat \<Rightarrow> ExecutionPlan \<Rightarrow> CalculationNodeFinder \<times> Heap
   \<Rightarrow> (Exception \<times> Heap) + (CalculationNodeFinder \<times> Heap)" where
  "splice en newNode newPlan copy st =
     (case st of (f, h) \<Rightarrow>
      case f_prev f of
        None \<Rightarrow> Inl (InvalidAccess, h)
      | Some prev \<Rightarrow>
          (case replaceNode (node_id en) (node_id newNode) prev copy of
             Inl e \<Rightarrow> Inl (e, h)
           | Inr copy' \<Rightarrow>
               Inr (f\<lparr>f_out := f_out f @ [newPlan]\<rparr>, store_plan newPlan copy' h)))"

definition construct ::
  "Env \<Rightarrow> string \<Rightarrow> string \<Rightarrow> Variable \<Rightarrow> RangeInfo list \<Rightarrow> Index \<Rightarrow> nat \<Rightarrow> ExecutionPlan \<Rightarrow> Heap
   \<Rightarrow> (Exception \<times> Heap) + (ExecutionNode \<times> ExecutionPlan \<times> Heap)" where
  "construct env vocbase collection outVariable rangeInfo idx newPlan copy h =
     (case nextId copy of (i, copy1) \<Rightarrow>
      case IndexRangeNode_new env i vocbase collection outVariable idx rangeInfo of
        Inl e \<Rightarrow> Inl (e, delete_plan newPlan h)
      | Inr newNode \<Rightarrow>
          (case registerNode_throws env newNode copy1 of
             Some e \<Rightarrow> Inl (e, delete_plan newPlan (delete_node newNode (new_node newNode h)))
           | None \<Rightarrow>
               Inr (newNode, registerNode newNode copy1,
                    store_plan newPlan (registerNode newNode copy1)
                      (delete_node newNode (new_node newNode h)))))"

definition substitute ::
  "Env \<Rightarrow> ExecutionNode \<Rightarrow> string \<Rightarrow> string \<Rightarrow> Variable \<Rightarrow> RangeInfo list \<Rightarrow> Index
   \<Rightarrow> CalculationNodeFinder \<times> Heap
   \<Rightarrow> (Exception \<times> Heap) + (CalculationNodeFinder \<times> Heap)" where
  "substitute env en vocbase collection outVariable rangeInfo idx st =
     (case st of (f, h) \<Rightarrow>
      case plan_at h (f_plan f) of
        None \<Rightarrow> Inl (InvalidAccess, h)
      | Some plan \<Rightarrow>
          (case clone env plan of
             Inl e \<Rightarrow> Inl (e, h)
           | Inr copy \<Rightarrow>
               (case new_plan copy h of (newPlan, h1) \<Rightarrow>
                  bindE (construct env vocbase collection outVariable rangeInfo idx newPlan copy h1)
                    (\<lambda>r. case r of (newNode, copy2, h2) \<Rightarrow>
                       splice en newNode newPlan copy2 (f, h2)))))"

text \<open>\<open>before\<close> (lines 261-315). A calculation that sets the tracked variable has its expression
  read by \<open>buildRangeInfo\<close>, with fresh \<open>attr\<close> and \<open>enumCollVar\<close>. An EnumerateCollection node
  whose variable has ranges gets one substitution per index of the catalog for the attributes of
  these ranges, in the order of the catalog. Every visit ends with \<open>_prev = en\<close>.\<close>

definition before ::
  "Env \<Rightarrow> ExecutionNode \<Rightarrow> CalculationNodeFinder \<times> Heap
   \<Rightarrow> (Exception \<times> Heap) + (CalculationNodeFinder \<times> Heap)" where
  "before env en st =
     (case st of (f, h) \<Rightarrow>
      bindE
        (case kind en of
           CalculationNode e \<Rightarrow>
             if length (getVariablesSetHere en) \<noteq> 1 then Inl (AssertionFailed, h)
             else if var_id (getVariablesSetHere en ! 0) = var_id (f_var f) then
               (case plan_at h (f_plan f) of
                  None \<Rightarrow> Inl (InvalidAccess, h)
                | Some plan \<Rightarrow>
                    Inr (f\<lparr>f_ranges :=
                           snd (snd (buildRangeInfo RangesInfo_insert plan (node e)
                                       ([], [], f_ranges f)))\<rparr>, h))
             else Inr (f, h)
         | EnumerateCollectionNode vocbase collection outVariable \<Rightarrow>
             (case getVariablesSetHere en of
                [] \<Rightarrow> Inl (InvalidAccess, h)
              | var # others \<Rightarrow>
                  (case RangesInfo_find (f_ranges f) (var_name var) of
                     None \<Rightarrow> Inr (f, h)
                   | Some m \<Rightarrow>
                       foldE (substitute env en vocbase collection outVariable (map snd m))
                         (getIndexes env en (map fst m)) (f, h)))
         | _ \<Rightarrow> Inr (f, h))
        (\<lambda>st'. case st' of (f', h') \<Rightarrow> Inr (f'\<lparr>f_prev := Some (node_id en)\<rparr>, h')))"

text \<open>Modelled from the spec: \<open>ExecutionNode::walk\<close> and \<open>WalkerWorker\<close> are not among the
  sources. The spec has one walk per filter over the dependency chain strictly upstream of the
  filter, calling the visitor on each node, and a node with zero or more than one dependency
  ends the walk without being visited. The plan is acyclic, so the number of its nodes bounds
  the length of the chain and serves as fuel.\<close>

fun walk ::
  "nat \<Rightarrow> Env \<Rightarrow> ExecutionPlan \<Rightarrow> nat \<Rightarrow> CalculationNodeFinder \<times> Heap
   \<Rightarrow> (Exception \<times> Heap) + (CalculationNodeFinder \<times> Heap)" where
  "walk 0 env plan i st = Inr st"
| "walk (Suc fuel) env plan i st =
     (case getNodeById plan i of
        None \<Rightarrow> Inr st
      | Some en \<Rightarrow>
          (case getDependencies en of
             [d] \<Rightarrow> bindE (before env en st) (walk fuel env plan d)
           | _ \<Rightarrow> Inr st))"

definition walk_from ::
  "Env \<Rightarrow> ExecutionPlan \<Rightarrow> ExecutionNode \<Rightarrow> CalculationNodeFinder \<times> Heap
   \<Rightarrow> (Exception \<times> Heap) + (CalculationNodeFinder \<times> Heap)" where
  "walk_from env plan nn st =
     (case getDependencies nn of
        [d] \<Rightarrow> walk (length (nodes plan)) env plan d st
      | _ \<Rightarrow> Inr st)"

text \<open>\<open>useIndexRange\<close> (lines 428-445). What the caller sees afterwards is its own list \<open>out\<close>,
  the flag \<open>keep\<close> and the heap. For each filter a finder is built on the stack from \<open>plan\<close>,
  the filter's variable and \<open>out\<close>, the walk runs, and the finder goes out of scope: nothing of
  it is read back, so the list the rule leaves to its caller is the list it was given.\<close>

record IndexRuleResult =
  out_after :: "nat list"
  keep_after :: bool
  heap_after :: Heap

definition useIndexRange_step ::
  "Env \<Rightarrow> nat \<Rightarrow> ExecutionPlan \<Rightarrow> nat list \<Rightarrow> ExecutionNode \<Rightarrow> Heap \<Rightarrow> (Exception \<times> Heap) + Heap" where
  "useIndexRange_step env plan p out nn h =
     (if length (getVariablesUsedHere nn) \<noteq> 1 then Inl (AssertionFailed, h)
      else bindE (walk_from env p nn (new_finder plan (getVariablesUsedHere nn ! 0) out, h))
             (\<lambda>st. Inr (snd st)))"

definition useIndexRange ::
  "Env \<Rightarrow> nat \<Rightarrow> nat list \<Rightarrow> Heap \<Rightarrow> (Exception \<times> Heap) + IndexRuleResult" where
  "useIndexRange env plan out h =
     (case plan_at h plan of
        None \<Rightarrow> Inl (InvalidAccess, h)
      | Some p \<Rightarrow>
          bindE (foldE (useIndexRange_step env plan p out) (findNodesOfType p FILTER) h)
            (\<lambda>h'. Inr \<lparr>out_after = out, keep_after = True, heap_after = h'\<rparr>))"

text \<open>Every plan of the first heap is still there, unchanged, in the second.\<close>

definition heap_extends :: "Heap \<Rightarrow> Heap \<Rightarrow> bool" where
  "heap_extends h h' \<longleftrightarrow> (\<forall>a p. plan_at h a = Some p \<longrightarrow> plan_at h' a = Some p)"

definition outcome_extends :: "Heap \<Rightarrow> (Exception \<times> Heap) + ('a \<times> Heap) \<Rightarrow> bool" where
  "outcome_extends h res =
     (case res of Inl eh \<Rightarrow> heap_extends h (snd eh) | Inr xh \<Rightarrow> heap_extends h (snd xh))"

subsection \<open>The example plan on the heap\<close>

text \<open>The plan of the spec's example lives at address 10; the catalog has one index, on
  attribute \<open>a\<close>; cloning copies the plan as it is, and nothing throws. In the two failing
  environments the constructor, respectively the registration, runs out of memory.\<close>

definition IndexRangeNode_plain ::
  "nat \<Rightarrow> string \<Rightarrow> string \<Rightarrow> Variable \<Rightarrow> Index \<Rightarrow> RangeInfo list \<Rightarrow> Exception + ExecutionNode" where
  "IndexRangeNode_plain i vocbase collection outVariable idx rangeInfo =
     Inr (plan_node i (IndexRangeNode vocbase collection outVariable idx rangeInfo)
            [] [] [outVariable] [])"

definition index_on_a :: "ExecutionNode \<Rightarrow> string list \<Rightarrow> Index list" where
  "index_on_a en attrs = (if attrs = [''a''] then [Index 7 [''a'']] else [])"

definition example_env :: Env where
  "example_env =
     \<lparr>clone = Inr, getIndexes = index_on_a, IndexRangeNode_new = IndexRangeNode_plain,
      registerNode_throws = (\<lambda>n p. None)\<rparr>"

definition example_heap :: Heap where
  "example_heap = \<lparr>plans = [(10, example_plan)], unowned = []\<rparr>"

definition failing_constructor ::
  "nat \<Rightarrow> string \<Rightarrow> string \<Rightarrow> Variable \<Rightarrow> Index \<Rightarrow> RangeInfo list \<Rightarrow> Exception + ExecutionNode" where
  "failing_constructor i vocbase collection outVariable idx rangeInfo = Inl OutOfMemory"

definition failing_env :: Env where
  "failing_env = example_env\<lparr>IndexRangeNode_new := failing_constructor\<rparr>"

definition failing_registration :: "ExecutionNode \<Rightarrow> ExecutionPlan \<Rightarrow> Exception option" where
  "failing_registration n p = Some OutOfMemory"

definition failing_registration_env :: Env where
  "failing_registration_env = example_env\<lparr>registerNode_throws := failing_registration\<rparr>"

text \<open>The bounds that \<open>p.a == 5\<close> gives, the finder as it stands when the walk reaches the
  EnumerateCollection node, and the clone with the IndexRange node (id 6) in that node's place
  under the calculation.\<close>

definition example_range :: RangeInfo where
  "example_range =
     \<lparr>low = Some \<lparr>bound = NODE_TYPE_VALUE (ValueInt 5), inclusive = True\<rparr>,
      high = Some \<lparr>bound = NODE_TYPE_VALUE (ValueInt 5), inclusive = True\<rparr>\<rparr>"

definition walked_finder :: CalculationNodeFinder where
  "walked_finder =
     \<lparr>f_ranges = [(''p'', [(''a'', example_range)])], f_plan = 10, f_var = var_t,
      f_out = [], f_prev = Some 3\<rparr>"

definition example_spliced :: ExecutionPlan where
  "example_spliced =
     \<lparr>nodes = [example_singleton,
               example_calculation\<lparr>getDependencies := [6]\<rparr>,
               example_filter,
               example_return,
               plan_node 6 (IndexRangeNode ''db'' ''coll'' var_p (Index 7 [''a'']) [example_range])
                 [1] [] [var_p] []],
      varSetBy = [(1, example_enumerate), (2, example_calculation)],
      next_id = 7\<rparr>"

section \<open>Properties of the cursor actions\<close>

lemma map_of_set_prop: "map_of (set_prop k v kvs) = (map_of kvs)(k \<mapsto> v)"
  by (induction kvs) auto

lemma map_of_copy_options:
  "copy_options src ks options = Inr options' \<Longrightarrow> k \<noteq> ''__proto__'' \<Longrightarrow>
   map_of (fst options') k =
     (if k \<in> set ks then Some (lookup_prop src k) else map_of (fst options) k)"
proof (induction ks arbitrary: options)
  case Nil
  then show ?case by simp
next
  case (Cons i rest)
  obtain own proto where o: "options = (own, proto)" by (cases options)
  from Cons.prems(1) have
    "copy_options src rest (assign_option i (lookup_prop src i) options) = Inr options'"
    by (simp split: if_splits)
  from Cons.IH [OF this Cons.prems(2)] show ?case
    using Cons.prems(2) o by (auto simp: map_of_set_prop)
qed

lemma map_of_omit: "map_of (filter (\<lambda>kv. fst kv \<noteq> k) kvs) k' = (if k' = k then None else map_of kvs k')"
  by (induction kvs) auto

lemma lookup_omit: "k' \<noteq> k \<Longrightarrow> lookup_prop (omit_prop k json) k' = lookup_prop json k'"
  by (cases json) (auto simp: map_of_omit)

lemma lookup_omit_same: "\<not> truthy (lookup_prop json k) \<Longrightarrow> \<not> truthy (lookup_prop (omit_prop k json) k)"
  by (cases json) (auto simp: map_of_omit)

lemma omit_nullish:
  "omit_prop k json = JUndefined \<longleftrightarrow> json = JUndefined"
  "omit_prop k json = JNull \<longleftrightarrow> json = JNull"
  by (cases json; simp)+

lemma build_options_omit:
  "\<not> truthy (lookup_prop json ''batchSize'') \<Longrightarrow>
   build_options (omit_prop ''batchSize'' json) = build_options json"
  using lookup_omit_same [of json "''batchSize''"]
  by (simp add: build_options_def get_prop_def bindE_def omit_nullish lookup_omit js_or_def)

lemma build_options_value:
  assumes "json \<noteq> JUndefined" "json \<noteq> JNull"
    and "build_options json = Inr (options, proto)"
  shows "lookup_prop (JObj options) ''batchSize'' =
       (if is_object (lookup_prop json ''options'') \<and>
           ''batchSize'' \<in> set (own_keys (lookup_prop json ''options''))
        then lookup_prop (lookup_prop json ''options'') ''batchSize''
        else js_or (lookup_prop json ''batchSize'') (JNum 1000)) \<and>
     lookup_prop (JObj options) ''count'' =
       (if is_object (lookup_prop json ''options'') \<and>
           ''count'' \<in> set (own_keys (lookup_prop json ''options''))
        then lookup_prop (lookup_prop json ''options'') ''count''
        else js_or (lookup_prop json ''count'') (JBool False))"
proof (cases "is_object (lookup_prop json ''options'')")
  case True
  with assms have c: "copy_options (lookup_prop json ''options'')
      (own_keys (lookup_prop json ''options''))
      ([(''count'', js_or (lookup_prop json ''count'') (JBool False)),
        (''batchSize'', js_or (lookup_prop json ''batchSize'') (JNum 1000)),
        (''ttl'', lookup_prop json ''ttl'')], None) = Inr (options, proto)"
    by (simp add: build_options_def get_prop_def bindE_def Let_def)
  show ?thesis
    using map_of_copy_options [OF c, of "''batchSize''"] map_of_copy_options [OF c, of "''count''"]
      True
    by simp
next
  case False
  with assms show ?thesis
    by (auto simp: build_options_def get_prop_def bindE_def Let_def)
qed

text \<open>
  Claim C10, as the code has it. A request that reaches \<open>AQL_EXECUTE\<close> (no suffix, a
  body that is neither \<open>undefined\<close> nor \<open>null\<close>, a query) and returns normally
  hands \<open>AQL_EXECUTE\<close> the query, the bind variables and the options object. When
  \<open>batchSize\<close> of the body is falsy (0, \<open>null\<close>, \<open>false\<close>, absent), the
  batch size in the options is 1000 unless the body's \<open>options\<close> attribute is an
  object with a \<open>batchSize\<close> of its own, which then replaces it; and the whole
  outcome is that of the same request with \<open>batchSize\<close> left out. When \<open>count\<close>
  is falsy, the count in the options is \<open>false\<close>, again unless \<open>options\<close> has a
  \<open>count\<close> of its own.
\<close>

theorem post_api_cursor_falsy_defaults:
  assumes sfx: "suffix req = []"
    and json: "jsonBody req \<noteq> JUndefined" "jsonBody req \<noteq> JNull"
    and query: "lookup_prop (jsonBody req) ''query'' \<noteq> JUndefined"
    and ret: "post_api_cursor AQL_EXECUTE req = Inr r"
  shows "\<exists>options.
     executed r = Some (lookup_prop (jsonBody req) ''query'',
                        lookup_prop (jsonBody req) ''bindVars'', JObj options) \<and>
     (\<not> truthy (lookup_prop (jsonBody req) ''batchSize'') \<longrightarrow>
        lookup_prop (JObj options) ''batchSize'' =
          (if is_object (lookup_prop (jsonBody req) ''options'') \<and>
              ''batchSize'' \<in> set (own_keys (lookup_prop (jsonBody req) ''options''))
           then lookup_prop (lookup_prop (jsonBody req) ''options'') ''batchSize''
           else JNum 1000) \<and>
        post_api_cursor AQL_EXECUTE
          (req\<lparr>jsonBody := omit_prop ''batchSize'' (jsonBody req)\<rparr>) = Inr r) \<and>
     (\<not> truthy (lookup_prop (jsonBody req) ''count'') \<longrightarrow>
        lookup_prop (JObj options) ''count'' =
          (if is_object (lookup_prop (jsonBody req) ''options'') \<and>
              ''count'' \<in> set (own_keys (lookup_prop (jsonBody req) ''options''))
           then lookup_prop (lookup_prop (jsonBody req) ''options'') ''count''
           else JBool False))"
proof -
  from ret sfx json obtain options proto where
    bo: "build_options (jsonBody req) = Inr (options, proto)"
    by (cases "build_options (jsonBody req)") (auto simp: post_api_cursor_def bindE_def)
  have bs: "lookup_prop (JObj options) ''batchSize'' =
       (if is_object (lookup_prop (jsonBody req) ''options'') \<and>
           ''batchSize'' \<in> set (own_keys (lookup_prop (jsonBody req) ''options''))
        then lookup_prop (lookup_prop (jsonBody req) ''options'') ''batchSize''
        else js_or (lookup_prop (jsonBody req) ''batchSize'') (JNum 1000))"
    and cnt: "lookup_prop (JObj options) ''count'' =
       (if is_object (lookup_prop (jsonBody req) ''options'') \<and>
           ''count'' \<in> set (own_keys (lookup_prop (jsonBody req) ''options''))
        then lookup_prop (lookup_prop (jsonBody req) ''options'') ''count''
        else js_or (lookup_prop (jsonBody req) ''count'') (JBool False))"
    using build_options_value [OF json bo] by simp_all
  have run: "post_api_cursor AQL_EXECUTE req =
      run_query AQL_EXECUTE (lookup_prop (jsonBody req) ''query'')
        (lookup_prop (jsonBody req) ''bindVars'') (JObj options) proto
        (lookup_prop (jsonBody req) ''count'')"
    using sfx json query bo by (simp add: post_api_cursor_def get_prop_def bindE_def)
  have ex: "executed r = Some (lookup_prop (jsonBody req) ''query'',
                        lookup_prop (jsonBody req) ''bindVars'', JObj options)"
    using ret unfolding run run_query_def by (auto split: NativeResult.splits)
  have omit: "post_api_cursor AQL_EXECUTE
          (req\<lparr>jsonBody := omit_prop ''batchSize'' (jsonBody req)\<rparr>) = Inr r"
    if falsy: "\<not> truthy (lookup_prop (jsonBody req) ''batchSize'')"
  proof -
    have "post_api_cursor AQL_EXECUTE (req\<lparr>jsonBody := omit_prop ''batchSize'' (jsonBody req)\<rparr>)
        = post_api_cursor AQL_EXECUTE req"
      using sfx json query build_options_omit [OF falsy]
      by (simp add: post_api_cursor_def get_prop_def bindE_def omit_nullish lookup_omit)
    then show ?thesis using ret by simp
  qed
  show ?thesis
    using ex bs cnt omit by (intro exI [of _ options]) (simp add: js_or_def)
qed

text \<open>The theorem at a body with \<open>batchSize: 0\<close>: the options are those of the
  body without \<open>batchSize\<close>, with the batch size 1000.\<close>

theorem post_api_cursor_falsy_defaults_witness:
  "post_api_cursor AQL_EXECUTE_cursor
     \<lparr>suffix = [], requestType = POST,
      jsonBody = JObj [(''query'', JStr ''RETURN 1''), (''batchSize'', JNum 0)]\<rparr>
   = Inr \<lparr>executed = Some (JStr ''RETURN 1'', JUndefined,
             JObj [(''count'', JBool False), (''batchSize'', JNum 1000), (''ttl'', JUndefined)]),
          options_proto = None, reply = ResultCursor 1 HTTP_CREATED (Some False)\<rparr>
   \<and> post_api_cursor AQL_EXECUTE_cursor
     \<lparr>suffix = [], requestType = POST, jsonBody = JObj [(''query'', JStr ''RETURN 1'')]\<rparr>
   = Inr \<lparr>executed = Some (JStr ''RETURN 1'', JUndefined,
             JObj [(''count'', JBool False), (''batchSize'', JNum 1000), (''ttl'', JUndefined)]),
          options_proto = None, reply = ResultCursor 1 HTTP_CREATED (Some False)\<rparr>"
proof -
  let ?req = "\<lparr>suffix = [], requestType = POST,
      jsonBody = JObj [(''query'', JStr ''RETURN 1''), (''batchSize'', JNum 0)]\<rparr>"
  let ?r = "\<lparr>executed = Some (JStr ''RETURN 1'', JUndefined,
             JObj [(''count'', JBool False), (''batchSize'', JNum 1000), (''ttl'', JUndefined)]),
          options_proto = None, reply = ResultCursor 1 HTTP_CREATED (Some False)\<rparr>"
  have ret: "post_api_cursor AQL_EXECUTE_cursor ?req = Inr ?r"
    by (simp add: post_api_cursor_def build_options_def get_prop_def bindE_def js_or_def
        run_query_def AQL_EXECUTE_cursor_def)
  from post_api_cursor_falsy_defaults [of ?req AQL_EXECUTE_cursor ?r, OF _ _ _ _ ret]
  show ?thesis using ret by simp
qed

text \<open>
  Claim C10 as stated fails: with \<open>batchSize: 0\<close> in the body and
  \<open>options: {batchSize: 0}\<close>, the copy loop overwrites the default and
  \<open>AQL_EXECUTE\<close> is called with a batch size of zero.
\<close>

theorem post_api_cursor_batchSize_zero_counterexample:
  "post_api_cursor AQL_EXECUTE_cursor
     \<lparr>suffix = [], requestType = POST,
      jsonBody = JObj [(''query'', JStr ''RETURN 1''), (''batchSize'', JNum 0),
                       (''options'', JObj [(''batchSize'', JNum 0)])]\<rparr>
   = Inr \<lparr>executed = Some (JStr ''RETURN 1'', JUndefined,
             JObj [(''count'', JBool False), (''batchSize'', JNum 0), (''ttl'', JUndefined)]),
          options_proto = None, reply = ResultCursor 1 HTTP_CREATED (Some False)\<rparr>"
  by (simp add: post_api_cursor_def build_options_def get_prop_def bindE_def js_or_def
      run_query_def AQL_EXECUTE_cursor_def)


text \<open>The two special names in the copy loop, and a native result that is neither an error
  nor a cursor: an own \<open>hasOwnProperty\<close> in \<open>options\<close> ends the handler with a TypeError
  before the query is run; \<open>__proto__\<close> becomes the prototype of the options object and not
  an own property; and the other value is handed to \<open>resultCursor\<close>.\<close>

lemma post_api_cursor_special_names:
  "post_api_cursor AQL_EXECUTE
     \<lparr>suffix = [], requestType = POST,
      jsonBody = JObj [(''query'', JStr ''RETURN 1''),
                       (''options'', JObj [(''hasOwnProperty'', JNum 1)])]\<rparr>
   = Inl TypeError
   \<and> build_options
       (JObj [(''query'', JStr ''RETURN 1''),
              (''options'', JObj [(''__proto__'', JObj [(''fullCount'', JBool True)])])])
   = Inr ([(''count'', JBool False), (''batchSize'', JNum 1000), (''ttl'', JUndefined)],
          Some (JObj [(''fullCount'', JBool True)]))
   \<and> run_query (\<lambda>query bindVars options proto. OtherObject JNull)
       (JStr ''RETURN 1'') JUndefined (JObj []) None JUndefined
   = Inr \<lparr>executed = Some (JStr ''RETURN 1'', JUndefined, JObj []), options_proto = None,
          reply = ResultCursorOther JNull HTTP_CREATED (Some False)\<rparr>"
  by (simp add: post_api_cursor_def build_options_def get_prop_def bindE_def js_or_def
      run_query_def)

section \<open>Properties of the optimizer rules\<close>

subsection \<open>buildRangeInfo\<close>

lemma dotted_snoc: "names \<noteq> [] \<Longrightarrow> dotted (names @ [a]) = dotted names @ ''.'' @ a"
  by (induction names rule: dotted.induct) auto

lemma concat_dots:
  "concat (map (\<lambda>a. a @ ''.'') names) = (if names = [] then [] else dotted names @ ''.'')"
  by (induction names rule: dotted.induct) auto

text \<open>An access \<open>x.a\<^sub>1. ... .a\<^sub>n\<close> whose base variable is set by an
  EnumerateCollection node sets \<open>enumCollVar\<close> to the variable's name and appends every
  attribute name, each followed by a dot, to \<open>attr\<close>.\<close>

lemma buildRangeInfo_attribute_path:
  assumes "getVarSetBy plan (var_id x) = Some setter" "getType setter = ENUMERATE_COLLECTION"
    and "var_name x \<noteq> []"
  shows "attribute_path acc = Some (x, names) \<Longrightarrow>
    buildRangeInfo ins plan acc (e0, a0, r) =
      (var_name x, a0 @ concat (map (\<lambda>a. a @ ''.'') names), r)"
proof (induction acc arbitrary: names)
  case (NODE_TYPE_REFERENCE y)
  then show ?case using assms by simp
next
  case (NODE_TYPE_ATTRIBUTE_ACCESS a m)
  then show ?case using assms(3) by (auto split: option.splits)
qed simp_all

lemma attribute_path_access:
  "attribute_path acc = Some (x, names) \<Longrightarrow> names \<noteq> [] \<Longrightarrow> is_attribute_access acc"
  by (cases acc) (auto split: option.splits)

lemma buildRangeInfo_access:
  assumes "getVarSetBy plan (var_id x) = Some setter" "getType setter = ENUMERATE_COLLECTION"
    and "var_name x \<noteq> []"
    and "attribute_path acc = Some (x, names)" "names \<noteq> []"
  shows "insert_range ins lo hi (buildRangeInfo ins plan acc (e0, [], r)) =
      (var_name x, dotted names @ ''.'', ins (var_name x) (dotted names) lo hi r)"
  using assms(3,5)
  by (simp add: buildRangeInfo_attribute_path [OF assms(1-4)] concat_dots substr_drop_last_def)

text \<open>
  Claim C5, amended. Let \<open>acc\<close> be an attribute access \<open>x.a\<^sub>1. ... .a\<^sub>n\<close> (\<open>n \<ge> 1\<close>) whose base
  variable \<open>x\<close> is set by an EnumerateCollection node (variable names are not empty),
  \<open>op\<close> one of \<open><\<close>, \<open><=\<close>, \<open>>\<close>, \<open>>=\<close> and \<open>v\<close> a constant. Started with an empty
  \<open>attr\<close>, as it is at the root of an expression and under every \<open>AND\<close>,
  \<open>buildRangeInfo\<close> calls \<open>insert\<close> exactly once, for the variable's name and the
  attribute path, with exactly one bound: for \<open>acc op v\<close> the low bound when \<open>op\<close> is
  \<open>>\<close> or \<open>>=\<close> and the high bound otherwise, for \<open>v op acc\<close> the other way round,
  inclusive iff \<open>op\<close> is \<open><=\<close> or \<open>>=\<close>. This holds for every \<open>insert\<close>. For
  \<open>acc > v1 AND acc < v2\<close> the two calls are a low bound \<open>v1\<close> and a high bound
  \<open>v2\<close>, both exclusive, and the ranges modelled from the spec then hold low \<open>v1\<close>
  exclusive and high \<open>v2\<close> exclusive for the attribute.
\<close>

theorem buildRangeInfo_ordering_bound:
  assumes setter: "getVarSetBy plan (var_id x) = Some setter"
      "getType setter = ENUMERATE_COLLECTION"
    and name: "var_name x \<noteq> []"
    and path: "attribute_path acc = Some (x, names)" "names \<noteq> []"
    and op: "op = OPERATOR_BINARY_LT \<or> op = OPERATOR_BINARY_LE \<or>
             op = OPERATOR_BINARY_GT \<or> op = OPERATOR_BINARY_GE"
  shows "buildRangeInfo ins plan (NODE_TYPE_OPERATOR_BINARY op acc (NODE_TYPE_VALUE v)) (e0, [], r) =
      (var_name x, dotted names @ ''.'',
       ins (var_name x) (dotted names)
         (if op = OPERATOR_BINARY_GT \<or> op = OPERATOR_BINARY_GE
          then Some \<lparr>bound = NODE_TYPE_VALUE v,
                     inclusive = (op = OPERATOR_BINARY_LE \<or> op = OPERATOR_BINARY_GE)\<rparr>
          else None)
         (if op = OPERATOR_BINARY_LT \<or> op = OPERATOR_BINARY_LE
          then Some \<lparr>bound = NODE_TYPE_VALUE v,
                     inclusive = (op = OPERATOR_BINARY_LE \<or> op = OPERATOR_BINARY_GE)\<rparr>
          else None) r)
    \<and> buildRangeInfo ins plan (NODE_TYPE_OPERATOR_BINARY op (NODE_TYPE_VALUE v) acc) (e0, [], r) =
      (var_name x, dotted names @ ''.'',
       ins (var_name x) (dotted names)
         (if op = OPERATOR_BINARY_LT \<or> op = OPERATOR_BINARY_LE
          then Some \<lparr>bound = NODE_TYPE_VALUE v,
                     inclusive = (op = OPERATOR_BINARY_LE \<or> op = OPERATOR_BINARY_GE)\<rparr>
          else None)
         (if op = OPERATOR_BINARY_GT \<or> op = OPERATOR_BINARY_GE
          then Some \<lparr>bound = NODE_TYPE_VALUE v,
                     inclusive = (op = OPERATOR_BINARY_LE \<or> op = OPERATOR_BINARY_GE)\<rparr>
          else None) r)
    \<and> buildRangeInfo log_insert plan
           (NODE_TYPE_OPERATOR_BINARY OPERATOR_BINARY_AND
              (NODE_TYPE_OPERATOR_BINARY OPERATOR_BINARY_GT acc (NODE_TYPE_VALUE v1))
              (NODE_TYPE_OPERATOR_BINARY OPERATOR_BINARY_LT acc (NODE_TYPE_VALUE v2)))
           ([], [], []) =
      (var_name x, dotted names @ ''.'',
       [(var_name x, dotted names,
           Some \<lparr>bound = NODE_TYPE_VALUE v1, inclusive = False\<rparr>, None),
        (var_name x, dotted names,
           None, Some \<lparr>bound = NODE_TYPE_VALUE v2, inclusive = False\<rparr>)])
    \<and> RangesInfo_find
           (snd (snd (buildRangeInfo RangesInfo_insert plan
             (NODE_TYPE_OPERATOR_BINARY OPERATOR_BINARY_AND
                (NODE_TYPE_OPERATOR_BINARY OPERATOR_BINARY_GT acc (NODE_TYPE_VALUE v1))
                (NODE_TYPE_OPERATOR_BINARY OPERATOR_BINARY_LT acc (NODE_TYPE_VALUE v2)))
             ([], [], []))))
           (var_name x) =
      Some [(dotted names,
             \<lparr>low = Some \<lparr>bound = NODE_TYPE_VALUE v1, inclusive = False\<rparr>,
              high = Some \<lparr>bound = NODE_TYPE_VALUE v2, inclusive = False\<rparr>\<rparr>)]"
proof -
  note acc = attribute_path_access [OF path]
  note ins = buildRangeInfo_access [OF setter name path]
  have left: "buildRangeInfo ins plan (NODE_TYPE_OPERATOR_BINARY op acc (NODE_TYPE_VALUE v)) (e0, [], r) =
      (var_name x, dotted names @ ''.'',
       ins (var_name x) (dotted names)
         (if op = OPERATOR_BINARY_GT \<or> op = OPERATOR_BINARY_GE
          then Some \<lparr>bound = NODE_TYPE_VALUE v,
                     inclusive = (op = OPERATOR_BINARY_LE \<or> op = OPERATOR_BINARY_GE)\<rparr>
          else None)
         (if op = OPERATOR_BINARY_LT \<or> op = OPERATOR_BINARY_LE
          then Some \<lparr>bound = NODE_TYPE_VALUE v,
                     inclusive = (op = OPERATOR_BINARY_LE \<or> op = OPERATOR_BINARY_GE)\<rparr>
          else None) r)"
    using op acc by (auto simp: ins)
  have right: "buildRangeInfo ins plan (NODE_TYPE_OPERATOR_BINARY op (NODE_TYPE_VALUE v) acc) (e0, [], r) =
      (var_name x, dotted names @ ''.'',
       ins (var_name x) (dotted names)
         (if op = OPERATOR_BINARY_LT \<or> op = OPERATOR_BINARY_LE
          then Some \<lparr>bound = NODE_TYPE_VALUE v,
                     inclusive = (op = OPERATOR_BINARY_LE \<or> op = OPERATOR_BINARY_GE)\<rparr>
          else None)
         (if op = OPERATOR_BINARY_GT \<or> op = OPERATOR_BINARY_GE
          then Some \<lparr>bound = NODE_TYPE_VALUE v,
                     inclusive = (op = OPERATOR_BINARY_LE \<or> op = OPERATOR_BINARY_GE)\<rparr>
          else None) r)"
    using op acc by (auto simp: ins)
  have calls: "buildRangeInfo log_insert plan
           (NODE_TYPE_OPERATOR_BINARY OPERATOR_BINARY_AND
              (NODE_TYPE_OPERATOR_BINARY OPERATOR_BINARY_GT acc (NODE_TYPE_VALUE v1))
              (NODE_TYPE_OPERATOR_BINARY OPERATOR_BINARY_LT acc (NODE_TYPE_VALUE v2)))
           ([], [], []) =
      (var_name x, dotted names @ ''.'',
       [(var_name x, dotted names,
           Some \<lparr>bound = NODE_TYPE_VALUE v1, inclusive = False\<rparr>, None),
        (var_name x, dotted names,
           None, Some \<lparr>bound = NODE_TYPE_VALUE v2, inclusive = False\<rparr>)])"
    using acc by (simp add: ins log_insert_def)
  have ranges: "RangesInfo_find
           (snd (snd (buildRangeInfo RangesInfo_insert plan
             (NODE_TYPE_OPERATOR_BINARY OPERATOR_BINARY_AND
                (NODE_TYPE_OPERATOR_BINARY OPERATOR_BINARY_GT acc (NODE_TYPE_VALUE v1))
                (NODE_TYPE_OPERATOR_BINARY OPERATOR_BINARY_LT acc (NODE_TYPE_VALUE v2)))
             ([], [], []))))
           (var_name x) =
      Some [(dotted names,
             \<lparr>low = Some \<lparr>bound = NODE_TYPE_VALUE v1, inclusive = False\<rparr>,
              high = Some \<lparr>bound = NODE_TYPE_VALUE v2, inclusive = False\<rparr>\<rparr>)]"
    using acc by (simp add: ins RangesInfo_insert_def RangesInfo_find_def)
  from left right calls ranges show ?thesis by (intro conjI)
qed

text \<open>The theorem at \<open>p.a > 1\<close>, \<open>1 > p.a\<close> and \<open>p.a > 1 AND p.a < 10\<close> in the plan of
  the example, where \<open>p\<close> is set by the EnumerateCollection node.\<close>

theorem buildRangeInfo_ordering_bound_witness:
  "getVarSetBy example_plan (var_id var_p) = Some example_enumerate
   \<and> getType example_enumerate = ENUMERATE_COLLECTION
   \<and> attribute_path access_p_a = Some (var_p, [''a''])
   \<and> buildRangeInfo log_insert example_plan
       (NODE_TYPE_OPERATOR_BINARY OPERATOR_BINARY_GT access_p_a (NODE_TYPE_VALUE (ValueInt 1)))
       ([], [], []) =
     (''p'', ''a.'',
      [(''p'', ''a'', Some \<lparr>bound = NODE_TYPE_VALUE (ValueInt 1), inclusive = False\<rparr>, None)])
   \<and> buildRangeInfo log_insert example_plan
       (NODE_TYPE_OPERATOR_BINARY OPERATOR_BINARY_GT (NODE_TYPE_VALUE (ValueInt 1)) access_p_a)
       ([], [], []) =
     (''p'', ''a.'',
      [(''p'', ''a'', None, Some \<lparr>bound = NODE_TYPE_VALUE (ValueInt 1), inclusive = False\<rparr>)])
   \<and> RangesInfo_find
        (snd (snd (buildRangeInfo RangesInfo_insert example_plan
          (NODE_TYPE_OPERATOR_BINARY OPERATOR_BINARY_AND
             (NODE_TYPE_OPERATOR_BINARY OPERATOR_BINARY_GT access_p_a (NODE_TYPE_VALUE (ValueInt 1)))
             (NODE_TYPE_OPERATOR_BINARY OPERATOR_BINARY_LT access_p_a (NODE_TYPE_VALUE (ValueInt 10))))
          ([], [], []))))
        ''p'' =
     Some [(''a'',
            \<lparr>low = Some \<lparr>bound = NODE_TYPE_VALUE (ValueInt 1), inclusive = False\<rparr>,
             high = Some \<lparr>bound = NODE_TYPE_VALUE (ValueInt 10), inclusive = False\<rparr>\<rparr>)]"
proof -
  have setter: "getVarSetBy example_plan (var_id var_p) = Some example_enumerate"
    by (simp add: getVarSetBy_def example_plan_def var_p_def)
  have ty: "getType example_enumerate = ENUMERATE_COLLECTION"
    by (simp add: getType_def example_enumerate_def)
  have name: "var_name var_p \<noteq> []" by (simp add: var_p_def)
  have path: "attribute_path access_p_a = Some (var_p, [''a''])"
    by (simp add: access_p_a_def)
  from buildRangeInfo_ordering_bound [OF setter ty name path, of OPERATOR_BINARY_GT log_insert
      "ValueInt 1" "[]" "[]" "ValueInt 1" "ValueInt 10"]
  show ?thesis using setter ty path by (simp add: var_p_def log_insert_def)
qed

text \<open>Without the condition on the setter the statement of C5 fails. In \<open>alias_plan\<close> the
  variable \<open>q\<close> is set by a calculation; for \<open>q.a < 5\<close>, entered with empty strings,
  \<open>insert\<close> is not called and the ranges stay empty.\<close>

theorem buildRangeInfo_ordering_other_setter_counterexample:
  "getVarSetBy alias_plan (var_id var_q) = Some alias_calculation
   \<and> getType alias_calculation = CALCULATION
   \<and> attribute_path access_q_a = Some (var_q, [''a''])
   \<and> buildRangeInfo log_insert alias_plan
       (NODE_TYPE_OPERATOR_BINARY OPERATOR_BINARY_LT access_q_a (NODE_TYPE_VALUE (ValueInt 5)))
       ([], [], []) = ([], [], [])
   \<and> buildRangeInfo RangesInfo_insert alias_plan
       (NODE_TYPE_OPERATOR_BINARY OPERATOR_BINARY_LT access_q_a (NODE_TYPE_VALUE (ValueInt 5)))
       ([], [], []) = ([], [], [])"
  by (simp add: getVarSetBy_def alias_plan_def var_q_def alias_calculation_def plan_node_def
      getType_def access_q_a_def)

text \<open>Under \<open>AND\<close> only \<open>attr\<close> is reset, \<open>enumCollVar\<close> keeps the name it got in the left
  branch: for \<open>p.a > 1 AND q.b < 10\<close> the second bound is inserted for the variable \<open>p\<close> and
  the attribute \<open>b\<close>.\<close>

lemma buildRangeInfo_stale_enumCollVar:
  "buildRangeInfo log_insert alias_plan
     (NODE_TYPE_OPERATOR_BINARY OPERATOR_BINARY_AND
        (NODE_TYPE_OPERATOR_BINARY OPERATOR_BINARY_GT access_p_a (NODE_TYPE_VALUE (ValueInt 1)))
        (NODE_TYPE_OPERATOR_BINARY OPERATOR_BINARY_LT
           (NODE_TYPE_ATTRIBUTE_ACCESS ''b'' (NODE_TYPE_REFERENCE var_q))
           (NODE_TYPE_VALUE (ValueInt 10))))
     ([], [], []) =
   (''p'', ''b.'',
    [(''p'', ''a'', Some \<lparr>bound = NODE_TYPE_VALUE (ValueInt 1), inclusive = False\<rparr>, None),
     (''p'', ''b'', None, Some \<lparr>bound = NODE_TYPE_VALUE (ValueInt 10), inclusive = False\<rparr>)])"
  by (simp add: getVarSetBy_def alias_plan_def var_q_def var_p_def alias_calculation_def
      plan_node_def getType_def access_p_a_def example_enumerate_def log_insert_def
      substr_drop_last_def)

text \<open>
  Claim C6, amended. Let \<open>acc\<close> be an attribute access \<open>x.a\<^sub>1. ... .a\<^sub>n\<close> (\<open>n \<ge> 1\<close>) whose base
  variable \<open>x\<close> is itself set by an EnumerateCollection node (variable names are not
  empty), and \<open>v\<close> a constant. For \<open>acc == v\<close> and for \<open>v == acc\<close>, \<open>buildRangeInfo\<close> (started
  with an empty \<open>attr\<close>) calls \<open>insert\<close> once, for the variable's name and the
  attribute path, with a low and a high bound that both hold \<open>v\<close> and are both
  inclusive. This holds for every \<open>insert\<close>.
\<close>

theorem buildRangeInfo_equality_bounds:
  assumes setter: "getVarSetBy plan (var_id x) = Some setter"
      "getType setter = ENUMERATE_COLLECTION"
    and name: "var_name x \<noteq> []"
    and path: "attribute_path acc = Some (x, names)" "names \<noteq> []"
  shows "buildRangeInfo ins plan
           (NODE_TYPE_OPERATOR_BINARY OPERATOR_BINARY_EQ acc (NODE_TYPE_VALUE v)) (e0, [], r) =
      (var_name x, dotted names @ ''.'',
       ins (var_name x) (dotted names)
         (Some \<lparr>bound = NODE_TYPE_VALUE v, inclusive = True\<rparr>)
         (Some \<lparr>bound = NODE_TYPE_VALUE v, inclusive = True\<rparr>) r)
    \<and> buildRangeInfo ins plan
           (NODE_TYPE_OPERATOR_BINARY OPERATOR_BINARY_EQ (NODE_TYPE_VALUE v) acc) (e0, [], r) =
      (var_name x, dotted names @ ''.'',
       ins (var_name x) (dotted names)
         (Some \<lparr>bound = NODE_TYPE_VALUE v, inclusive = True\<rparr>)
         (Some \<lparr>bound = NODE_TYPE_VALUE v, inclusive = True\<rparr>) r)"
  using attribute_path_access [OF path]
  by (simp add: buildRangeInfo_access [OF setter name path])

text \<open>The theorem at \<open>p.a == 5\<close> and \<open>5 == p.a\<close> in the plan of the example, with the
  ranges modelled from the spec.\<close>

theorem buildRangeInfo_equality_bounds_witness:
  "getVarSetBy example_plan (var_id var_p) = Some example_enumerate
   \<and> getType example_enumerate = ENUMERATE_COLLECTION
   \<and> attribute_path access_p_a = Some (var_p, [''a''])
   \<and> buildRangeInfo RangesInfo_insert example_plan
       (NODE_TYPE_OPERATOR_BINARY OPERATOR_BINARY_EQ access_p_a (NODE_TYPE_VALUE (ValueInt 5)))
       ([], [], []) =
     (''p'', ''a.'',
      [(''p'', [(''a'',
          \<lparr>low = Some \<lparr>bound = NODE_TYPE_VALUE (ValueInt 5), inclusive = True\<rparr>,
           high = Some \<lparr>bound = NODE_TYPE_VALUE (ValueInt 5), inclusive = True\<rparr>\<rparr>)])])
   \<and> buildRangeInfo RangesInfo_insert example_plan
       (NODE_TYPE_OPERATOR_BINARY OPERATOR_BINARY_EQ (NODE_TYPE_VALUE (ValueInt 5)) access_p_a)
       ([], [], []) =
     (''p'', ''a.'',
      [(''p'', [(''a'',
          \<lparr>low = Some \<lparr>bound = NODE_TYPE_VALUE (ValueInt 5), inclusive = True\<rparr>,
           high = Some \<lparr>bound = NODE_TYPE_VALUE (ValueInt 5), inclusive = True\<rparr>\<rparr>)])])"
proof -
  have setter: "getVarSetBy example_plan (var_id var_p) = Some example_enumerate"
    by (simp add: getVarSetBy_def example_plan_def var_p_def)
  have ty: "getType example_enumerate = ENUMERATE_COLLECTION"
    by (simp add: getType_def example_enumerate_def)
  have name: "var_name var_p \<noteq> []" by (simp add: var_p_def)
  have path: "attribute_path access_p_a = Some (var_p, [''a''])"
    by (simp add: access_p_a_def)
  from buildRangeInfo_equality_bounds [OF setter ty name path, of RangesInfo_insert
      "ValueInt 5" "[]" "[]"]
  show ?thesis using setter ty path by (simp add: var_p_def RangesInfo_insert_def)
qed

text \<open>The setter chain is not followed: \<open>buildRangeInfo\<close> looks the base variable up once.
  In \<open>alias_plan\<close> the variable \<open>q\<close> is set by the calculation \<open>q = p\<close> and \<open>p\<close> by the
  EnumerateCollection node; for \<open>q.a == 5\<close> and \<open>5 == q.a\<close> \<open>insert\<close> is not called.\<close>

theorem buildRangeInfo_equality_setter_chain_counterexample:
  "getVarSetBy alias_plan (var_id var_q) = Some alias_calculation
   \<and> kind alias_calculation =
       CalculationNode \<lparr>node = NODE_TYPE_REFERENCE var_p, canThrow = False\<rparr>
   \<and> getVarSetBy alias_plan (var_id var_p) = Some example_enumerate
   \<and> getType example_enumerate = ENUMERATE_COLLECTION
   \<and> attribute_path access_q_a = Some (var_q, [''a''])
   \<and> buildRangeInfo log_insert alias_plan
       (NODE_TYPE_OPERATOR_BINARY OPERATOR_BINARY_EQ access_q_a (NODE_TYPE_VALUE (ValueInt 5)))
       ([], [], []) = ([], [], [])
   \<and> buildRangeInfo log_insert alias_plan
       (NODE_TYPE_OPERATOR_BINARY OPERATOR_BINARY_EQ (NODE_TYPE_VALUE (ValueInt 5)) access_q_a)
       ([], [], []) = ([], [], [])"
  by (simp add: getVarSetBy_def alias_plan_def var_q_def var_p_def alias_calculation_def
      plan_node_def getType_def access_q_a_def example_enumerate_def)

subsection \<open>Plans and their nodes\<close>

lemmas plan_defs = plan_node_def var_t_def var_p_def
  findNodesOfType_def getType_def getVarSetBy_def getParents_def
  nextId_def registerNode_def replaceNode_def unlinkNodes_def unlinkNode_def getNodeById_def
  replace_id_def bindE_def

lemmas example_defs = example_plan_def example_singleton_def example_enumerate_def
  example_calculation_def example_filter_def example_return_def access_p_a_def


lemma getNodeById_None: "getNodeById plan i = None \<longleftrightarrow> i \<notin> set (node_ids plan)"
  by (auto simp: getNodeById_def node_ids_def find_None_iff)

lemma getNodeById_Some: "getNodeById plan i = Some n \<Longrightarrow> n \<in> set (nodes plan) \<and> node_id n = i"
  by (auto simp: getNodeById_def find_Some_iff)



lemma unlinkNode_ids:
  "unlinkNode i plan = Inr plan' \<Longrightarrow> node_ids plan' = filter (\<lambda>x. x \<noteq> i) (node_ids plan)"
  by (auto simp: unlinkNode_def node_ids_def filter_map comp_def
      split: option.splits list.splits)

lemma unlinkNodes_ids:
  "unlinkNodes toRemove plan = Inr plan' \<Longrightarrow>
   node_ids plan' = filter (\<lambda>x. x \<notin> set toRemove) (node_ids plan)"
proof (induction toRemove arbitrary: plan)
  case Nil
  then show ?case by (simp add: unlinkNodes_def)
next
  case (Cons i rest)
  from Cons.prems obtain plan1 where 1: "unlinkNode i plan = Inr plan1"
    and 2: "unlinkNodes rest plan1 = Inr plan'"
    by (auto simp: unlinkNodes_def bindE_def split: sum.splits)
  show ?case using Cons.IH [OF 2] unlinkNode_ids [OF 1]
    by (simp add: conj_commute)
qed

subsection \<open>removeUnnecessaryCalculationsRule\<close>





subsection \<open>removeUnnecessaryFiltersRule: skipped filters and lookups after a replacement\<close>

lemma filterStep_skip:
  assumes "length (getVariablesUsedHere n) = 1" "undecidable isConstant plan n"
  shows "filterStep isConstant toBoolean n (plan, toUnlink) = Inr (plan, toUnlink)"
  using assms
  by (auto simp: filterStep_def undecidable_def getType_def split: option.splits NodeKind.splits)

lemma filter_scan_skip:
  "\<forall>m \<in> set ns. length (getVariablesUsedHere m) = 1 \<and> undecidable isConstant plan m \<Longrightarrow>
   foldE (filterStep isConstant toBoolean) ns (plan, toUnlink) = Inr (plan, toUnlink)"
  by (induction ns) (auto simp: filterStep_skip bindE_def)

lemma find_map_id:
  "(\<And>m. node_id (f m) = node_id m) \<Longrightarrow>
   find (\<lambda>m. node_id m = k) (map f xs) = map_option f (find (\<lambda>m. node_id m = k) xs)"
  by (induction xs) auto

lemma find_filter_id:
  "k \<noteq> old \<Longrightarrow>
   find (\<lambda>m. node_id m = k) (filter (\<lambda>m. node_id m \<noteq> old) xs) = find (\<lambda>m. node_id m = k) xs"
  by (induction xs) auto

lemma find_filter_gone:
  "find (\<lambda>m. node_id m = old) (filter (\<lambda>m. node_id m \<noteq> old) xs) = None"
  by (induction xs) auto

lemma find_append_new:
  "find (\<lambda>m. node_id m = k) (xs @ [y]) =
     (case find (\<lambda>m. node_id m = k) xs of Some m \<Rightarrow> Some m
      | None \<Rightarrow> if node_id y = k then Some y else None)"
  by (induction xs) auto

lemma replaceNode_lookup:
  assumes "replaceNode old new parent plan = Inr plan'"
    and "getNodeById plan old = Some oldNode"
  shows "getNodeById plan' old = None"
    and "k \<noteq> old \<Longrightarrow> getNodeById plan' k =
      map_option (\<lambda>m. if node_id m = new then m\<lparr>getDependencies := getDependencies oldNode\<rparr>
                       else if node_id m = parent
                       then m\<lparr>getDependencies := replace_id old new (getDependencies m)\<rparr>
                       else m) (getNodeById plan k)"
    and "next_id plan' = next_id plan" and "varSetBy plan' = varSetBy plan"
  using assms
  by (auto simp: replaceNode_def getNodeById_def find_filter_gone find_filter_id find_map_id
      split: option.splits if_splits)

subsection \<open>removeUnnecessaryFiltersRule: filters that are always true\<close>

lemma deps_of_None: "deps_of plan k = None \<longleftrightarrow> k \<notin> set (node_ids plan)"
  by (simp add: deps_of_def getNodeById_None)






lemma filterStep_cases:
  assumes "filterStep isConstant toBoolean m (plan, toUnlink) = Inr (plan', toUnlink')"
  shows "(plan' = plan \<and> toUnlink' = toUnlink \<and> \<not> always_true isConstant toBoolean plan m)
     \<or> (plan' = plan \<and> toUnlink' = List.insert (node_id m) toUnlink
          \<and> always_true isConstant toBoolean plan m)
     \<or> (toUnlink' = toUnlink \<and> \<not> always_true isConstant toBoolean plan m
          \<and> replaced_in plan (node_id m) plan')"
  using assms
  by (auto simp: filterStep_def always_true_def replaced_in_def nextId_def bindE_def Let_def
      split: option.splits NodeKind.splits if_splits sum.splits)

lemma registered_lookup:
  "k \<noteq> next_id plan \<Longrightarrow>
   getNodeById (registerNode (NoResultsNode_new (next_id plan)) (plan\<lparr>next_id := Suc (next_id plan)\<rparr>)) k
     = getNodeById plan k"
  by (auto simp: getNodeById_def registerNode_def find_append_new NoResultsNode_new_def
      split: option.splits)

lemma replaced_in_deps:
  assumes rep: "replaced_in plan old plan'" and below: "ids_below plan"
    and old: "old < next_id plan"
  shows "deps_of plan' old = None"
    and "\<And>k. k \<noteq> old \<Longrightarrow> k < next_id plan \<Longrightarrow>
      \<exists>parent. deps_of plan' k =
        map_option (\<lambda>ds. if k = parent then replace_id old (next_id plan) ds else ds)
          (deps_of plan k)"
    and "varSetBy plan' = varSetBy plan"
    and "next_id plan' = Suc (next_id plan)"
    and "ids_below plan'"
    and "set (node_ids plan') \<subseteq> insert (next_id plan) (set (node_ids plan))"
proof -
  let ?i = "next_id plan"
  let ?plan2 = "registerNode (NoResultsNode_new ?i) (plan\<lparr>next_id := Suc ?i\<rparr>)"
  from rep obtain parent where r: "replaceNode old ?i parent ?plan2 = Inr plan'"
    by (auto simp: replaced_in_def)
  then obtain oldNode where o: "getNodeById ?plan2 old = Some oldNode"
    by (auto simp: replaceNode_def split: option.splits)
  note look = replaceNode_lookup [OF r o]
  show "deps_of plan' old = None" using look(1) by (simp add: deps_of_def)
  show "varSetBy plan' = varSetBy plan" using look(4) by (simp add: registerNode_def)
  show "next_id plan' = Suc (next_id plan)" using look(3) by (simp add: registerNode_def)
  have nodes': "set (node_ids plan') \<subseteq> insert ?i (set (node_ids plan))"
    using r by (auto simp: replaceNode_def node_ids_def registerNode_def NoResultsNode_new_def
        split: option.splits if_splits)
  then show "set (node_ids plan') \<subseteq> insert (next_id plan) (set (node_ids plan))" .
  show "ids_below plan'"
    unfolding ids_below_def
  proof
    fix m assume "m \<in> set (nodes plan')"
    then have "node_id m \<in> set (node_ids plan')" by (simp add: node_ids_def)
    with nodes' have "node_id m = ?i \<or> node_id m \<in> set (node_ids plan)" by auto
    then have "node_id m \<le> ?i" using below by (auto simp: ids_below_def node_ids_def)
    then show "node_id m < next_id plan'" using look(3) by (simp add: registerNode_def)
  qed
  show "\<exists>parent. deps_of plan' k =
        map_option (\<lambda>ds. if k = parent then replace_id old (next_id plan) ds else ds)
          (deps_of plan k)" if "k \<noteq> old" "k < next_id plan" for k
  proof -
    have k: "k \<noteq> ?i" using that(2) by simp
    have "getNodeById plan' k =
      map_option (\<lambda>m. if node_id m = ?i then m\<lparr>getDependencies := getDependencies oldNode\<rparr>
                       else if node_id m = parent
                       then m\<lparr>getDependencies := replace_id old ?i (getDependencies m)\<rparr>
                       else m) (getNodeById plan k)"
      using look(2) [OF that(1)] registered_lookup [OF k] by simp
    then have "deps_of plan' k =
        map_option (\<lambda>ds. if k = parent then replace_id old ?i ds else ds) (deps_of plan k)"
      using k by (cases "getNodeById plan k")
        (auto simp: deps_of_def dest: getNodeById_Some)
    then show ?thesis by blast
  qed
qed

lemma filterStep_frame:
  assumes "filterStep isConstant toBoolean m (plan, toUnlink) = Inr (plan', toUnlink')"
    and "ids_below plan" "node_id m < next_id plan"
  shows "varSetBy plan' = varSetBy plan" "ids_below plan'" "next_id plan \<le> next_id plan'"
    "set (node_ids plan') \<subseteq> insert (next_id plan) (set (node_ids plan))"
    "set toUnlink \<subseteq> set toUnlink'"
proof -
  consider (same) "plan' = plan" "set toUnlink \<subseteq> set toUnlink'"
    | (rep) "toUnlink' = toUnlink" "replaced_in plan (node_id m) plan'"
    using filterStep_cases [OF assms(1)] by (auto simp: subset_insertI)
  then have "varSetBy plan' = varSetBy plan \<and> ids_below plan' \<and> next_id plan \<le> next_id plan'
    \<and> set (node_ids plan') \<subseteq> insert (next_id plan) (set (node_ids plan))
    \<and> set toUnlink \<subseteq> set toUnlink'"
  proof cases
    case same
    then show ?thesis using assms(2) by auto
  next
    case rep
    note d = replaced_in_deps [OF rep(2) assms(2,3)]
    show ?thesis using d(3,4,5,6) rep(1) by simp
  qed
  then show "varSetBy plan' = varSetBy plan" "ids_below plan'" "next_id plan \<le> next_id plan'"
    "set (node_ids plan') \<subseteq> insert (next_id plan) (set (node_ids plan))"
    "set toUnlink \<subseteq> set toUnlink'"
    by simp_all
qed







subsection \<open>removeUnnecessaryFiltersRule: filters that are always false\<close>





















subsection \<open>removeUnnecessaryFiltersRule: filters that cannot be decided\<close>

lemma undecidable_index:
  "varSetBy plan' = varSetBy plan \<Longrightarrow>
   undecidable isConstant plan' m = undecidable isConstant plan m"
  by (simp add: undecidable_def getVarSetBy_def)

lemma filterStep_undecidable:
  assumes "filterStep isConstant toBoolean m (plan, toUnlink) = Inr (plan', toUnlink')"
    and "undecidable isConstant plan m"
  shows "plan' = plan \<and> toUnlink' = toUnlink"
proof -
  have "length (getVariablesUsedHere m) = 1"
    using assms(1) by (auto simp: filterStep_def split: if_splits)
  from filterStep_skip [OF this assms(2), of toBoolean toUnlink] assms(1) show ?thesis by simp
qed

lemma scan_untouched:
  "foldE (filterStep isConstant toBoolean) ms (plan, toUnlink) = Inr (plan1, toUnlink1) \<Longrightarrow>
   ids_below plan \<Longrightarrow> \<forall>m \<in> set ms. node_id m < next_id plan \<Longrightarrow>
   \<forall>m \<in> set ms. node_id m = nid \<longrightarrow> undecidable isConstant plan m \<Longrightarrow>
   nid \<in> set (node_ids plan) \<Longrightarrow> nid \<notin> set toUnlink \<Longrightarrow>
   nid \<in> set (node_ids plan1) \<and> nid \<notin> set toUnlink1"
proof (induction ms arbitrary: plan toUnlink)
  case Nil
  then show ?case by simp
next
  case (Cons m ms)
  from Cons.prems(1) obtain plan' toUnlink' where
    1: "filterStep isConstant toBoolean m (plan, toUnlink) = Inr (plan', toUnlink')"
    and 2: "foldE (filterStep isConstant toBoolean) ms (plan', toUnlink') = Inr (plan1, toUnlink1)"
    by (auto simp: bindE_def split: sum.splits)
  have m: "node_id m < next_id plan" using Cons.prems(3) by simp
  note fr = filterStep_frame [OF 1 Cons.prems(2) m]
  have ms: "\<forall>m \<in> set ms. node_id m < next_id plan'" using Cons.prems(3) fr(3) by auto
  have un: "\<forall>m \<in> set ms. node_id m = nid \<longrightarrow> undecidable isConstant plan' m"
    using Cons.prems(4) by (simp add: undecidable_index [OF fr(1)])
  have lt: "nid < next_id plan"
    using Cons.prems(2,5) by (auto simp: ids_below_def node_ids_def)
  have "nid \<in> set (node_ids plan') \<and> nid \<notin> set toUnlink'"
  proof (cases "node_id m = nid")
    case True
    then have "undecidable isConstant plan m" using Cons.prems(4) by simp
    from filterStep_undecidable [OF 1 this] show ?thesis using Cons.prems(5,6) by simp
  next
    case False
    consider (same) "plan' = plan" "set toUnlink' \<subseteq> insert (node_id m) (set toUnlink)"
      | (rep) "toUnlink' = toUnlink" "replaced_in plan (node_id m) plan'"
      using filterStep_cases [OF 1] by auto
    then show ?thesis
    proof cases
      case same
      then show ?thesis using Cons.prems(5,6) False by auto
    next
      case rep
      from replaced_in_deps(2) [OF rep(2) Cons.prems(2) m, of nid] False lt
      have "deps_of plan' nid \<noteq> None"
        using Cons.prems(5) deps_of_None [of plan nid] by auto
      then show ?thesis using rep(1) Cons.prems(6) by (simp add: deps_of_None)
    qed
  qed
  then show ?case using Cons.IH [OF 2 fr(2) ms un] by simp
qed

text \<open>Claim C8. Let the filter \<open>n\<close> have one input variable that has no setter, or a setter that
  is not a calculation, or a setter whose expression is not constant. Then the loop body
  returns the plan and \<open>toUnlink\<close> exactly as it found them. If every filter of the plan is of
  this kind, the rule returns the plan it was given, with \<open>keep\<close> set. And whatever the other
  filters are, when the rule returns on a plan with distinct ids below the id counter, \<open>n\<close> is
  still in the resulting plan.\<close>

theorem removeUnnecessaryFilters_undecidable_unchanged:
  assumes "length (getVariablesUsedHere n) = 1"
    and "undecidable isConstant plan n"
  shows "filterStep isConstant toBoolean n (plan, toUnlink) = Inr (plan, toUnlink)
    \<and> ((\<forall>m \<in> set (findNodesOfType plan FILTER).
           length (getVariablesUsedHere m) = 1 \<and> undecidable isConstant plan m) \<longrightarrow>
        removeUnnecessaryFiltersRule isConstant toBoolean plan =
          Inr \<lparr>plan_after = plan, keep = True\<rparr>)
    \<and> (\<forall>r. distinct (map node_id (nodes plan))
           \<and> (\<forall>m \<in> set (nodes plan). node_id m < next_id plan)
           \<and> n \<in> set (findNodesOfType plan FILTER)
           \<and> removeUnnecessaryFiltersRule isConstant toBoolean plan = Inr r \<longrightarrow>
         getNodeById (plan_after r) (node_id n) \<noteq> None)"
proof (intro conjI allI impI)
  show "filterStep isConstant toBoolean n (plan, toUnlink) = Inr (plan, toUnlink)"
    using assms by (rule filterStep_skip)
next
  assume "\<forall>m \<in> set (findNodesOfType plan FILTER).
           length (getVariablesUsedHere m) = 1 \<and> undecidable isConstant plan m"
  then show "removeUnnecessaryFiltersRule isConstant toBoolean plan =
          Inr \<lparr>plan_after = plan, keep = True\<rparr>"
    by (simp add: removeUnnecessaryFiltersRule_def filter_scan_skip bindE_def)
next
  fix r
  assume a: "distinct (map node_id (nodes plan))
           \<and> (\<forall>m \<in> set (nodes plan). node_id m < next_id plan)
           \<and> n \<in> set (findNodesOfType plan FILTER)
           \<and> removeUnnecessaryFiltersRule isConstant toBoolean plan = Inr r"
  let ?ms = "findNodesOfType plan FILTER"
  from a obtain plan1 toUnlink1 where
    scan: "foldE (filterStep isConstant toBoolean) ?ms (plan, []) = Inr (plan1, toUnlink1)"
    and unl: "(if toUnlink1 \<noteq> [] then unlinkNodes toUnlink1 plan1 else Inr plan1)
        = Inr (plan_after r)"
    by (auto simp: removeUnnecessaryFiltersRule_def bindE_def split: sum.splits prod.splits)
  have below: "ids_below plan" using a by (simp add: ids_below_def)
  have n_in: "n \<in> set (nodes plan)" using a by (simp add: findNodesOfType_def)
  have scanned: "\<forall>m \<in> set ?ms. node_id m < next_id plan"
    using a by (simp add: findNodesOfType_def)
  have only: "\<forall>m \<in> set ?ms. node_id m = node_id n \<longrightarrow> undecidable isConstant plan m"
  proof (intro ballI impI)
    fix m assume "m \<in> set ?ms" "node_id m = node_id n"
    then have "m = n" using n_in a
      by (auto simp: findNodesOfType_def distinct_map inj_on_def)
    then show "undecidable isConstant plan m" using assms(2) by simp
  qed
  have "node_id n \<in> set (node_ids plan)" using n_in by (simp add: node_ids_def)
  from scan_untouched [OF scan below scanned only this]
  have 1: "node_id n \<in> set (node_ids plan1)" "node_id n \<notin> set toUnlink1" by simp_all
  have "node_ids (plan_after r) = filter (\<lambda>x. x \<notin> set toUnlink1) (node_ids plan1)"
  proof (cases "toUnlink1 = []")
    case True
    with unl show ?thesis by simp
  next
    case False
    with unl show ?thesis by (simp add: unlinkNodes_ids)
  qed
  with 1 show "getNodeById (plan_after r) (node_id n) \<noteq> None"
    by (simp add: getNodeById_None)
qed

text \<open>The filter of the example plan tests \<open>p.a == 5\<close>, which is not constant.\<close>

theorem removeUnnecessaryFilters_undecidable_unchanged_witness:
  "length (getVariablesUsedHere example_filter) = 1
   \<and> undecidable isConstant_value example_plan example_filter
   \<and> findNodesOfType example_plan FILTER = [example_filter]
   \<and> filterStep isConstant_value toBoolean_value example_filter (example_plan, []) =
       Inr (example_plan, [])
   \<and> removeUnnecessaryFiltersRule isConstant_value toBoolean_value example_plan =
       Inr \<lparr>plan_after = example_plan, keep = True\<rparr>"
proof -
  have len: "length (getVariablesUsedHere example_filter) = 1"
    by (simp add: example_filter_def)
  have und: "undecidable isConstant_value example_plan example_filter"
    by (simp add: undecidable_def getVarSetBy_def example_defs var_t_def)
  have fs: "findNodesOfType example_plan FILTER = [example_filter]"
    by (simp add: findNodesOfType_def getType_def example_defs)
  from removeUnnecessaryFilters_undecidable_unchanged [OF len und, of toBoolean_value "[]"]
  show ?thesis using len und fs by simp
qed

subsection \<open>The heap during useIndexRange\<close>

lemma foldr_max_ge: "a \<in> set xs \<Longrightarrow> a \<le> foldr max xs (0::nat)"
  by (induction xs) (auto simp: max_def)

lemma fresh_address_unused: "plan_at h (fresh_address h) = None"
proof -
  have "fresh_address h \<notin> set (map fst (plans h))"
    using foldr_max_ge [of "fresh_address h" "map fst (plans h)"]
    by (auto simp: fresh_address_def)
  then show ?thesis by (simp add: plan_at_def map_of_eq_None_iff)
qed

lemma delete_new_plan: "delete_plan (fst (new_plan copy h)) (snd (new_plan copy h)) = h"
proof -
  have "fresh_address h \<notin> fst ` set (plans h)"
    using fresh_address_unused [of h] by (simp add: plan_at_def map_of_eq_None_iff)
  then show ?thesis
    by (simp add: delete_plan_def new_plan_def AList.delete_notin_dom)
qed

lemma delete_new_node: "delete_node n (new_node n h) = h"
  by (simp add: delete_node_def new_node_def)

lemma construct_fault:
  assumes "IndexRangeNode_new env (next_id copy) vocbase collection outVariable idx rangeInfo = Inl e
      \<or> (\<exists>newNode. IndexRangeNode_new env (next_id copy) vocbase collection outVariable idx
            rangeInfo = Inr newNode
          \<and> registerNode_throws env newNode (copy\<lparr>next_id := Suc (next_id copy)\<rparr>) = Some e)"
  shows "construct env vocbase collection outVariable rangeInfo idx newPlan copy h1 =
      Inl (e, delete_plan newPlan h1)"
  using assms by (auto simp: construct_def nextId_def delete_new_node)

lemma heap_extends_refl: "heap_extends h h"
  by (simp add: heap_extends_def)

lemma heap_extends_trans: "heap_extends h h' \<Longrightarrow> heap_extends h' h'' \<Longrightarrow> heap_extends h h''"
  by (simp add: heap_extends_def)

lemma substitute_extends:
  "substitute env en vocbase collection outVariable rangeInfo idx (f, h) = Inr (f', h') \<Longrightarrow>
     heap_extends h h' \<and> f_plan f' = f_plan f"
  "substitute env en vocbase collection outVariable rangeInfo idx (f, h) = Inl (e, h') \<Longrightarrow>
     heap_extends h h'"
  using fresh_address_unused [of h]
  by (auto simp: substitute_def construct_def splice_def bindE_def nextId_def heap_extends_def
      plan_at_def store_plan_def delete_plan_def new_plan_def delete_node_def
      new_node_def update_conv' delete_conv'
      split: option.splits sum.splits if_splits)

lemma outcome_extends_bind:
  assumes "outcome_extends h m"
    and "\<And>x h1. m = Inr (x, h1) \<Longrightarrow> outcome_extends h1 (k (x, h1))"
  shows "outcome_extends h (bindE m k)"
proof (cases m)
  case (Inl eh)
  then show ?thesis using assms(1) by (simp add: bindE_def outcome_extends_def)
next
  case (Inr xh)
  obtain x h1 where xh: "xh = (x, h1)" by (cases xh)
  have 1: "heap_extends h h1" using assms(1) Inr xh by (simp add: outcome_extends_def)
  have 2: "outcome_extends h1 (k (x, h1))" using assms(2) Inr xh by simp
  show ?thesis using 1 2 Inr xh
    by (auto simp: bindE_def outcome_extends_def split: sum.splits
        intro: heap_extends_trans)
qed

lemma foldE_extends:
  assumes "\<And>x f h. outcome_extends h (step x (f, h))"
  shows "outcome_extends h (foldE step xs (f, h))"
proof (induction xs arbitrary: f h)
  case Nil
  then show ?case by (simp add: outcome_extends_def heap_extends_refl)
next
  case (Cons x xs)
  show ?case
    by (simp, rule outcome_extends_bind [OF assms]) (rule Cons.IH)
qed

lemma substitute_outcome:
  "outcome_extends h (substitute env en vocbase collection outVariable rangeInfo idx (f, h))"
  using substitute_extends [of env en vocbase collection outVariable rangeInfo idx f h]
  by (cases "substitute env en vocbase collection outVariable rangeInfo idx (f, h)")
    (auto simp: outcome_extends_def)

lemma before_outcome: "outcome_extends h (before env en (f, h))"
proof -
  have inner: "outcome_extends h
        (case kind en of
           CalculationNode e \<Rightarrow>
             if length (getVariablesSetHere en) \<noteq> 1 then Inl (AssertionFailed, h)
             else if var_id (getVariablesSetHere en ! 0) = var_id (f_var f) then
               (case plan_at h (f_plan f) of
                  None \<Rightarrow> Inl (InvalidAccess, h)
                | Some plan \<Rightarrow>
                    Inr (f\<lparr>f_ranges :=
                           snd (snd (buildRangeInfo RangesInfo_insert plan (node e)
                                       ([], [], f_ranges f)))\<rparr>, h))
             else Inr (f, h)
         | EnumerateCollectionNode vocbase collection outVariable \<Rightarrow>
             (case getVariablesSetHere en of
                [] \<Rightarrow> Inl (InvalidAccess, h)
              | var # others \<Rightarrow>
                  (case RangesInfo_find (f_ranges f) (var_name var) of
                     None \<Rightarrow> Inr (f, h)
                   | Some m \<Rightarrow>
                       foldE (substitute env en vocbase collection outVariable (map snd m))
                         (getIndexes env en (map fst m)) (f, h)))
         | _ \<Rightarrow> Inr (f, h))"
    by (auto simp: outcome_extends_def [of h "Inl x" for x] outcome_extends_def [of h "Inr x" for x]
        heap_extends_refl foldE_extends substitute_outcome
        split: NodeKind.splits option.splits list.splits)
  show ?thesis
    unfolding before_def prod.case
    by (rule outcome_extends_bind [OF inner])
      (simp add: outcome_extends_def heap_extends_refl)
qed

lemma walk_outcome: "outcome_extends h (walk fuel env plan i (f, h))"
proof (induction fuel arbitrary: i f h)
  case 0
  then show ?case by (simp add: outcome_extends_def heap_extends_refl)
next
  case (Suc fuel)
  show ?case
    by (auto simp: outcome_extends_def [of h "Inr x" for x] heap_extends_refl
        split: option.splits list.splits
        intro!: outcome_extends_bind [OF before_outcome] Suc.IH)
qed

lemma walk_frame:
  "walk fuel env plan i (f, h) = Inr (f', h') \<Longrightarrow> heap_extends h h'"
  "walk fuel env plan i (f, h) = Inl (e, h') \<Longrightarrow> heap_extends h h'"
  using walk_outcome [of h fuel env plan i f] by (simp_all add: outcome_extends_def)

lemma useIndexRange_step_frame:
  "useIndexRange_step env plan p out nn h = Inr h' \<Longrightarrow> heap_extends h h'"
  "useIndexRange_step env plan p out nn h = Inl (e, h') \<Longrightarrow> heap_extends h h'"
  by (auto simp: useIndexRange_step_def walk_from_def bindE_def heap_extends_refl
      split: if_splits list.splits sum.splits dest: walk_frame)

lemma useIndexRange_loop_frame:
  "foldE (useIndexRange_step env plan p out) ns h = Inr h' \<Longrightarrow> heap_extends h h'"
  "foldE (useIndexRange_step env plan p out) ns h = Inl (e, h') \<Longrightarrow> heap_extends h h'"
proof (induction ns arbitrary: h)
  case Nil
  { case 1 then show ?case by (simp add: heap_extends_refl) }
  { case 2 then show ?case by simp }
next
  case (Cons nn ns)
  { case 1
    then obtain h1 where a: "useIndexRange_step env plan p out nn h = Inr h1"
      and b: "foldE (useIndexRange_step env plan p out) ns h1 = Inr h'"
      by (auto simp: bindE_def split: sum.splits)
    show ?case using useIndexRange_step_frame(1) [OF a] Cons.IH(1) [OF b]
      by (rule heap_extends_trans) }
  { case 2
    show ?case
    proof (cases "useIndexRange_step env plan p out nn h")
      case (Inl eh)
      then show ?thesis using 2 useIndexRange_step_frame(2) [of env plan p out nn h e h']
        by (simp add: bindE_def)
    next
      case (Inr h1)
      then have b: "foldE (useIndexRange_step env plan p out) ns h1 = Inl (e, h')"
        using 2 by (simp add: bindE_def)
      show ?thesis using useIndexRange_step_frame(1) [OF Inr] Cons.IH(2) [OF b]
        by (rule heap_extends_trans)
    qed }
qed

lemma useIndexRange_frame:
  "useIndexRange env plan out h = Inl (e, h') \<Longrightarrow> heap_extends h h'"
  "useIndexRange env plan out h = Inr r \<Longrightarrow> heap_extends h (heap_after r) \<and> out_after r = out"
  using useIndexRange_loop_frame [of env plan _ out _ h]
  by (auto simp: useIndexRange_def bindE_def heap_extends_refl split: option.splits sum.splits)

subsection \<open>useIndexRange on the example plan\<close>

lemma substitute_example: "substitute example_env example_enumerate ''db'' ''coll'' var_p [example_range]
        (Index 7 [''a'']) (walked_finder, example_heap) =
   Inr (walked_finder\<lparr>f_out := [11]\<rparr>,
        \<lparr>plans = [(11, example_spliced), (10, example_plan)], unowned = []\<rparr>)"
  by (simp add: substitute_def construct_def splice_def plan_at_def fresh_address_def
  new_plan_def store_plan_def delete_plan_def new_node_def delete_node_def
  example_env_def example_heap_def IndexRangeNode_plain_def walked_finder_def
  example_spliced_def plan_defs example_defs)

lemma before_example_calculation: "before env example_calculation (new_finder 10 var_t [], example_heap) =
  Inr (walked_finder, example_heap)"
  by (simp add: before_def new_finder_def example_heap_def plan_at_def example_calculation_def
     var_t_def walked_finder_def bindE_def example_plan_def getVarSetBy_def access_p_a_def var_p_def
     example_enumerate_def getType_def RangesInfo_insert_def substr_drop_last_def example_range_def)

lemma before_example_enumerate: "before example_env example_enumerate (walked_finder, example_heap) =
   Inr (walked_finder\<lparr>f_out := [11], f_prev := Some 2\<rparr>,
        \<lparr>plans = [(11, example_spliced), (10, example_plan)], unowned = []\<rparr>)"
proof -
  have k: "kind example_enumerate = EnumerateCollectionNode ''db'' ''coll'' var_p"
    "getVariablesSetHere example_enumerate = [var_p]" "node_id example_enumerate = 2"
    by (simp_all add: example_enumerate_def)
  have r: "RangesInfo_find (f_ranges walked_finder) (var_name var_p) = Some [(''a'', example_range)]"
    by (simp add: RangesInfo_find_def walked_finder_def var_p_def)
  have i: "getIndexes example_env example_enumerate [''a''] = [Index 7 [''a'']]"
    by (simp add: example_env_def index_on_a_def)
  show ?thesis
    by (simp add: before_def k r i substitute_example bindE_def)
qed

lemma walk_from_example: "walk_from example_env example_plan example_filter (new_finder 10 var_t [], example_heap) =
     Inr (\<lparr>f_ranges = [(''p'', [(''a'', example_range)])], f_plan = 10, f_var = var_t,
           f_out = [11], f_prev = Some 2\<rparr>,
          \<lparr>plans = [(11, example_spliced), (10, example_plan)], unowned = []\<rparr>)"
proof -
  have d: "getDependencies example_filter = [3]" by (simp add: example_filter_def)
  have n: "length (nodes example_plan) = Suc (Suc (Suc (Suc (Suc 0))))"
    by (simp add: example_plan_def)
  have g: "getNodeById example_plan 3 = Some example_calculation"
    "getNodeById example_plan 2 = Some example_enumerate"
    "getNodeById example_plan (Suc 0) = Some example_singleton"
    by (simp_all add: getNodeById_def example_plan_def example_defs)
  have e: "getDependencies example_calculation = [2]" "getDependencies example_enumerate = [1]"
    "getDependencies example_singleton = []"
    by (simp_all add: example_defs)
  show ?thesis
    by (simp add: walk_from_def d n g e before_example_calculation [of example_env] before_example_enumerate bindE_def) (simp add: walked_finder_def)
qed

lemma failing_walk:
  assumes sub: "foldE (substitute env example_enumerate ''db'' ''coll'' var_p [example_range])
       (getIndexes env example_enumerate [''a'']) (walked_finder, example_heap) = Inl (e, example_heap)"
  shows "useIndexRange env 10 [] example_heap = Inl (e, example_heap)"
proof -
  have k: "kind example_enumerate = EnumerateCollectionNode ''db'' ''coll'' var_p"
    "getVariablesSetHere example_enumerate = [var_p]" "node_id example_enumerate = 2"
    by (simp_all add: example_enumerate_def)
  have r: "RangesInfo_find (f_ranges walked_finder) (var_name var_p) = Some [(''a'', example_range)]"
    by (simp add: RangesInfo_find_def walked_finder_def var_p_def)
  have stop: "before env example_enumerate (walked_finder, example_heap) = Inl (e, example_heap)"
    using sub by (simp add: before_def k r bindE_def)
  have d: "getDependencies example_filter = [3]" by (simp add: example_filter_def)
  have n: "length (nodes example_plan) = Suc (Suc (Suc (Suc (Suc 0))))"
    by (simp add: example_plan_def)
  have g: "getNodeById example_plan 3 = Some example_calculation"
    "getNodeById example_plan 2 = Some example_enumerate"
    by (simp_all add: getNodeById_def example_plan_def example_defs)
  have e: "getDependencies example_calculation = [2]" "getDependencies example_enumerate = [1]"
    by (simp_all add: example_defs)
  have w: "walk_from env example_plan example_filter (new_finder 10 var_t [], example_heap) =
      Inl (e, example_heap)"
    by (simp add: walk_from_def d n g e before_example_calculation stop bindE_def)
  have p: "plan_at example_heap 10 = Some example_plan"
    by (simp add: plan_at_def example_heap_def)
  have f: "findNodesOfType example_plan FILTER = [example_filter]"
    by (simp add: findNodesOfType_def getType_def example_defs)
  have v: "getVariablesUsedHere example_filter = [var_t]" by (simp add: example_filter_def)
  show ?thesis
    by (simp add: useIndexRange_def useIndexRange_step_def p f v w bindE_def)
qed

text \<open>Claim C7. Let the finder's plan be on the heap and let \<open>clone\<close> succeed. If the constructor
  of the IndexRange node throws \<open>e\<close>, or the constructor succeeds and the registration of the
  node throws \<open>e\<close>, then the substitution for this index ends with \<open>e\<close> and with the heap it
  started from: the clone has been deleted, no node is left unowned, and every plan, the
  original among them, is what it was. The loop over the indexes stops there with the same
  exception and heap, so nothing was pushed for this index. And whenever \<open>useIndexRange\<close> ends
  with an exception, the plan it was called on is unchanged on the heap.\<close>

theorem substitute_exception_rolls_back:
  assumes plan: "plan_at h (f_plan f) = Some plan"
    and copy: "clone env plan = Inr copy"
    and fault:
      "IndexRangeNode_new env (next_id copy) vocbase collection outVariable idx rangeInfo = Inl e
       \<or> (\<exists>newNode.
            IndexRangeNode_new env (next_id copy) vocbase collection outVariable idx rangeInfo
              = Inr newNode
            \<and> registerNode_throws env newNode (copy\<lparr>next_id := Suc (next_id copy)\<rparr>) = Some e)"
  shows "substitute env en vocbase collection outVariable rangeInfo idx (f, h) = Inl (e, h)
    \<and> foldE (substitute env en vocbase collection outVariable rangeInfo) (idx # rest) (f, h)
        = Inl (e, h)
    \<and> (\<forall>p out h0 e' h' original.
          useIndexRange env p out h0 = Inl (e', h') \<and> plan_at h0 p = Some original
          \<longrightarrow> plan_at h' p = Some original)"
proof -
  have one: "substitute env en vocbase collection outVariable rangeInfo idx (f, h) = Inl (e, h)"
    using plan copy delete_new_plan [of copy h]
    by (auto simp: substitute_def construct_fault [OF fault] bindE_def split: prod.splits)
  then have loop: "foldE (substitute env en vocbase collection outVariable rangeInfo)
      (idx # rest) (f, h) = Inl (e, h)"
    by (simp add: bindE_def)
  have frame: "\<forall>p out h0 e' h' original.
      useIndexRange env p out h0 = Inl (e', h') \<and> plan_at h0 p = Some original
      \<longrightarrow> plan_at h' p = Some original"
    using useIndexRange_frame(1) by (auto simp: heap_extends_def)
  from one loop frame show ?thesis by (intro conjI)
qed

text \<open>On the example heap, once with a constructor and once with a registration that runs out
  of memory: the exception comes out of \<open>useIndexRange\<close> with the heap as it was.\<close>

theorem substitute_exception_rolls_back_witness:
  "plan_at example_heap (f_plan walked_finder) = Some example_plan
   \<and> clone failing_env example_plan = Inr example_plan
   \<and> IndexRangeNode_new failing_env (next_id example_plan) ''db'' ''coll'' var_p
        (Index 7 [''a'']) [example_range] = Inl OutOfMemory
   \<and> substitute failing_env example_enumerate ''db'' ''coll'' var_p [example_range]
        (Index 7 [''a'']) (walked_finder, example_heap) = Inl (OutOfMemory, example_heap)
   \<and> registerNode_throws failing_registration_env
        (plan_node 6 (IndexRangeNode ''db'' ''coll'' var_p (Index 7 [''a'']) [example_range])
           [] [] [var_p] [])
        (example_plan\<lparr>next_id := Suc (next_id example_plan)\<rparr>) = Some OutOfMemory
   \<and> substitute failing_registration_env example_enumerate ''db'' ''coll'' var_p [example_range]
        (Index 7 [''a'']) (walked_finder, example_heap) = Inl (OutOfMemory, example_heap)
   \<and> useIndexRange failing_env 10 [] example_heap = Inl (OutOfMemory, example_heap)
   \<and> useIndexRange failing_registration_env 10 [] example_heap = Inl (OutOfMemory, example_heap)"
proof -
  have plan: "plan_at example_heap (f_plan walked_finder) = Some example_plan"
    by (simp add: plan_at_def example_heap_def walked_finder_def)
  have c1: "clone failing_env example_plan = Inr example_plan"
    by (simp add: failing_env_def example_env_def)
  have c2: "clone failing_registration_env example_plan = Inr example_plan"
    by (simp add: failing_registration_env_def example_env_def)
  have f1: "IndexRangeNode_new failing_env (next_id example_plan) ''db'' ''coll'' var_p
        (Index 7 [''a'']) [example_range] = Inl OutOfMemory"
    by (simp add: failing_env_def failing_constructor_def)
  have f2: "IndexRangeNode_new failing_registration_env (next_id example_plan) ''db'' ''coll'' var_p
        (Index 7 [''a'']) [example_range] =
      Inr (plan_node 6 (IndexRangeNode ''db'' ''coll'' var_p (Index 7 [''a'']) [example_range])
           [] [] [var_p] [])"
    by (simp add: failing_registration_env_def example_env_def IndexRangeNode_plain_def
        example_plan_def)
  have r2: "registerNode_throws failing_registration_env
        (plan_node 6 (IndexRangeNode ''db'' ''coll'' var_p (Index 7 [''a'']) [example_range])
           [] [] [var_p] [])
        (example_plan\<lparr>next_id := Suc (next_id example_plan)\<rparr>) = Some OutOfMemory"
    by (simp add: failing_registration_env_def failing_registration_def)
  have i1: "getIndexes failing_env example_enumerate [''a''] = [Index 7 [''a'']]"
    by (simp add: failing_env_def example_env_def index_on_a_def)
  have i2: "getIndexes failing_registration_env example_enumerate [''a''] = [Index 7 [''a'']]"
    by (simp add: failing_registration_env_def example_env_def index_on_a_def)
  note t1 = substitute_exception_rolls_back [OF plan c1, of "''db''" "''coll''" var_p
      "Index 7 [''a'']" "[example_range]" OutOfMemory example_enumerate "[]"]
  note t2 = substitute_exception_rolls_back [OF plan c2, of "''db''" "''coll''" var_p
      "Index 7 [''a'']" "[example_range]" OutOfMemory example_enumerate "[]"]
  have s1: "substitute failing_env example_enumerate ''db'' ''coll'' var_p [example_range]
        (Index 7 [''a'']) (walked_finder, example_heap) = Inl (OutOfMemory, example_heap)"
    and l1: "foldE (substitute failing_env example_enumerate ''db'' ''coll'' var_p [example_range])
        [Index 7 [''a'']] (walked_finder, example_heap) = Inl (OutOfMemory, example_heap)"
    using t1 f1 by blast+
  have s2: "substitute failing_registration_env example_enumerate ''db'' ''coll'' var_p
        [example_range] (Index 7 [''a'']) (walked_finder, example_heap)
        = Inl (OutOfMemory, example_heap)"
    and l2: "foldE (substitute failing_registration_env example_enumerate ''db'' ''coll'' var_p
        [example_range]) [Index 7 [''a'']] (walked_finder, example_heap)
        = Inl (OutOfMemory, example_heap)"
    using t2 f2 r2 by blast+
  have u1: "useIndexRange failing_env 10 [] example_heap = Inl (OutOfMemory, example_heap)"
    using l1 by (intro failing_walk) (simp add: i1)
  have u2: "useIndexRange failing_registration_env 10 [] example_heap =
      Inl (OutOfMemory, example_heap)"
    using l2 by (intro failing_walk) (simp add: i2)
  from plan c1 f1 s1 r2 s2 u1 u2 show ?thesis by (intro conjI)
qed

text \<open>Claim C1, on the plan of the spec's example (Singleton, EnumerateCollection,
  Calculation \<open>t = p.a == 5\<close>, Filter, Return; one index on \<open>a\<close>; the caller's list empty). The
  walk from the filter does clone the plan: the clone is at address 11, with the IndexRange
  node in place of the EnumerateCollection node under the calculation, and the finder's list
  holds it. But that list is the finder's own copy: \<open>useIndexRange\<close> returns with the caller's
  list still empty and \<open>keep\<close> set, so that one candidate results, the original plan, and the
  clone stays on the heap with no list referring to it.\<close>

theorem useIndexRange_example_output_list_unchanged:
  "walk_from example_env example_plan example_filter (new_finder 10 var_t [], example_heap) =
     Inr (\<lparr>f_ranges = [(''p'', [(''a'', example_range)])], f_plan = 10, f_var = var_t,
           f_out = [11], f_prev = Some 2\<rparr>,
          \<lparr>plans = [(11, example_spliced), (10, example_plan)], unowned = []\<rparr>)
   \<and> useIndexRange example_env 10 [] example_heap =
     Inr \<lparr>out_after = [], keep_after = True,
          heap_after = \<lparr>plans = [(11, example_spliced), (10, example_plan)], unowned = []\<rparr>\<rparr>"
proof -
  have p: "plan_at example_heap 10 = Some example_plan"
    by (simp add: plan_at_def example_heap_def)
  have f: "findNodesOfType example_plan FILTER = [example_filter]"
    by (simp add: findNodesOfType_def getType_def example_defs)
  have v: "getVariablesUsedHere example_filter = [var_t]" by (simp add: example_filter_def)
  show ?thesis
    by (simp add: useIndexRange_def useIndexRange_step_def p f v walk_from_example bindE_def)
qed

end
